theory Spec2Isabelle
  imports Main "HOL-Library.Word"
begin

unbundle bit_operations_syntax

section \<open>Machine types\<close>

text \<open>
  The fixed-width unsigned types of \<^verbatim>\<open>stdint.h\<close>. A C \<^verbatim>\<open>int\<close> that provably stays
  within 32 bits is an \<^typ>\<open>int\<close>; each place where this is used says why.
\<close>

type_synonym u8 = "8 word"
type_synonym u16 = "16 word"
type_synonym u32 = "32 word"

section \<open>Quantization tables from a quality factor (mjpeg.h, Jfif::create_default_qtables)\<close>

text \<open>
  Modelled from the spec: \<^verbatim>\<open>av_clip\<close> is not among the sources; the spec calls it clamping
  (``Quality is clamped to [1,99]'', ``then clamp to [1,255]'').
\<close>

definition av_clip :: "int \<Rightarrow> int \<Rightarrow> int \<Rightarrow> int" where
  "av_clip a amin amax = (if a < amin then amin else if a > amax then amax else a)"

text \<open>
  The loop \<^verbatim>\<open>for (i = 0; i < 128; i++)\<close> of lines 531--537. The table
  \<^verbatim>\<open>default_quantizers\<close> is declared outside the sources and is a parameter; the
  output buffer \<^verbatim>\<open>qtables\<close> is the list of the entries written so far. The product
  \<^verbatim>\<open>default_quantizers[i] * S + 50\<close> is at most \<open>255 * 65535 + 50\<close>, so the C
  \<^verbatim>\<open>int\<close> does not overflow and, being non-negative, \<^verbatim>\<open>/\<close> is \<open>div\<close>.
\<close>

function qtables_loop :: "u8 list \<Rightarrow> u16 \<Rightarrow> nat \<Rightarrow> u8 list \<Rightarrow> u8 list" where
  "qtables_loop default_quantizers S i qtables =
     (if i < 128 then
        (let val = (uint (default_quantizers ! i) * uint S + 50) div 100;
             val = av_clip val 1 255
         in qtables_loop default_quantizers S (i + 1) (qtables @ [word_of_int val]))
      else qtables)"
  by pat_completeness auto
termination
  by (relation "measure (\<lambda>(dq, S, i, qt). 128 - i)") auto

declare qtables_loop.simps [simp del]

text \<open>
  Lines 518--530: \<^verbatim>\<open>factor\<close> is the clipped quality, but the branch tests the
  parameter \<^verbatim>\<open>q\<close> itself; \<^verbatim>\<open>S\<close> is a \<^verbatim>\<open>uint16_t\<close>.
\<close>

definition scale_factor :: "u8 \<Rightarrow> u16" where
  "scale_factor q =
     (let factor = av_clip (uint q) 1 99
      in if uint q < 50 then word_of_int (5000 div factor)
         else word_of_int (200 - factor * 2))"

definition create_default_qtables :: "u8 list \<Rightarrow> u8 \<Rightarrow> u8 list" where
  "create_default_qtables default_quantizers q =
     qtables_loop default_quantizers (scale_factor q) 0 []"

text \<open>The spec's wording of the same computation (section 4.3), on unbounded integers.\<close>

definition spec_quality :: "int \<Rightarrow> int" where
  "spec_quality q = max 1 (min 99 q)"

definition spec_scale :: "int \<Rightarrow> int" where
  "spec_scale quality = (if quality < 50 then 5000 div quality else 200 - 2 * quality)"

definition spec_entry :: "int \<Rightarrow> int \<Rightarrow> int" where
  "spec_entry base S = max 1 (min 255 ((base * S + 50) div 100))"


section \<open>Byte order helpers (endiautils.h)\<close>

text \<open>
  Modelled from the spec: \<^verbatim>\<open>endiautils.h\<close> (\<^verbatim>\<open>write_16\<close>, \<^verbatim>\<open>write_32\<close>, \<^verbatim>\<open>read_16\<close>,
  \<^verbatim>\<open>read_24\<close>, \<^verbatim>\<open>read_32\<close>) is not among the sources. Section 6 of the spec gives every
  multi-byte field of the wire formats as big-endian. The writers append to the vector,
  the readers take the vector and the position of the first byte.
\<close>

definition write_16 :: "u16 \<Rightarrow> u8 list \<Rightarrow> u8 list" where
  "write_16 v buf = buf @ [ucast (drop_bit 8 v), ucast v]"

definition write_32 :: "u32 \<Rightarrow> u8 list \<Rightarrow> u8 list" where
  "write_32 v buf =
     buf @ [ucast (drop_bit 24 v), ucast (drop_bit 16 v), ucast (drop_bit 8 v), ucast v]"

definition read_16 :: "u8 list \<Rightarrow> int \<Rightarrow> u16" where
  "read_16 buf posn =
     push_bit 8 (ucast (buf ! nat posn)) OR ucast (buf ! nat (posn + 1))"

definition read_24 :: "u8 list \<Rightarrow> int \<Rightarrow> u32" where
  "read_24 buf posn =
     push_bit 16 (ucast (buf ! nat posn)) OR push_bit 8 (ucast (buf ! nat (posn + 1)))
       OR ucast (buf ! nat (posn + 2))"

definition read_32 :: "u8 list \<Rightarrow> int \<Rightarrow> u32" where
  "read_32 buf posn =
     push_bit 24 (ucast (buf ! nat posn)) OR push_bit 16 (ucast (buf ! nat (posn + 1)))
       OR push_bit 8 (ucast (buf ! nat (posn + 2))) OR ucast (buf ! nat (posn + 3))"

section \<open>Outcomes of a member function that may throw\<close>

text \<open>
  Every exception of the module is a \<^verbatim>\<open>std::runtime_error\<close> that carries a message.
  \<open>Deserialise\<close> is a \<^verbatim>\<open>void\<close> member function that assigns to the fields of its
  object, so an outcome carries the object: \<open>Returned s\<close> is a normal return with the
  object in state \<open>s\<close>, \<open>Thrown e s\<close> is the exception \<open>e\<close> leaving the object in state
  \<open>s\<close>, and \<open>OutOfBounds\<close> is a read outside the vector (undefined behaviour in C++),
  which happens when \<^verbatim>\<open>startPosn\<close> is negative or beyond the end and the unsigned
  length check wraps around.
\<close>

datatype runtime_error = runtime_error string

datatype 'a outcome = Returned 'a | Thrown runtime_error 'a | OutOfBounds

fun thrown :: "'a outcome \<Rightarrow> runtime_error option" where
  "thrown (Thrown e s) = Some e"
| "thrown (Returned s) = None"
| "thrown OutOfBounds = None"

text \<open>
  \<^verbatim>\<open>buffer.size() - startPosn < N\<close> is computed in \<^verbatim>\<open>size_t\<close>: the \<^verbatim>\<open>int\<close> operands are
  converted to the unsigned 64-bit type and the subtraction wraps around.
\<close>

definition size_t :: "int \<Rightarrow> int" where
  "size_t x = x mod 2 ^ 64"

section \<open>The RTP header (mjpeg.h, class RtpHeader)\<close>

record RtpHeader =
  Version :: u8
  PaddingFlag :: u8
  HeaderExtensionFlag :: u8
  CSRCCount :: u8
  MarkerBit :: u8
  PayloadType :: u16
  SeqNum :: u16
  Timestamp :: u32
  SyncSource :: u32

definition RTP_VERSION :: int where
  "RTP_VERSION = 2"

definition RTP_MINIMUM_HEADER_LENGTH :: int where
  "RTP_MINIMUM_HEADER_LENGTH = 12"

text \<open>
  Lines 68--75. The operands of \<^verbatim>\<open><<\<close>, \<^verbatim>\<open>&\<close> and \<^verbatim>\<open>|\<close> are promoted to \<^verbatim>\<open>int\<close>
  (32 bits here), and \<^verbatim>\<open>push_back\<close> converts the result to a byte. \<^verbatim>\<open><<\<close> binds
  tighter than \<^verbatim>\<open>&\<close>, which binds tighter than \<^verbatim>\<open>|\<close>.
\<close>

definition RtpHeader_Serialise :: "RtpHeader \<Rightarrow> u8 list \<Rightarrow> u8 list" where
  "RtpHeader_Serialise this buf =
     (let buf = buf @ [ucast ((push_bit 6 (ucast (Version this) :: u32) AND 0xc0)
                          OR (push_bit 5 (ucast (PaddingFlag this)) AND 0x20)
                          OR (push_bit 4 (ucast (HeaderExtensionFlag this)) AND 0x10)
                          OR (ucast (CSRCCount this) AND 0x0f))];
          buf = buf @ [ucast ((push_bit 7 (ucast (MarkerBit this) :: u32) AND 0x80)
                          OR (ucast (PayloadType this) AND 0x7f))];
          buf = write_16 (SeqNum this) buf;
          buf = write_32 (Timestamp this) buf;
          buf = write_32 (SyncSource this) buf
      in buf)"

text \<open>Lines 77--93. \<^verbatim>\<open>>>\<close> binds tighter than \<^verbatim>\<open>&\<close>.\<close>

definition RtpHeader_Deserialise :: "RtpHeader \<Rightarrow> u8 list \<Rightarrow> int \<Rightarrow> RtpHeader outcome" where
  "RtpHeader_Deserialise this buffer startPosn =
     (if size_t (int (length buffer) - startPosn) < size_t RTP_MINIMUM_HEADER_LENGTH then
        Thrown (runtime_error
          ''The available buffer size was less than the minimum RTP header length.'') this
      else if startPosn < 0 \<or> int (length buffer) < startPosn + 12 then OutOfBounds
      else
        (let rawBuffer = (\<lambda>i. buffer ! nat (startPosn + i)) in
         Returned (this\<lparr>
           Version := ucast (drop_bit 6 (ucast (rawBuffer 0) :: u32) AND 0x03),
           PaddingFlag := ucast (drop_bit 5 (ucast (rawBuffer 0) :: u32) AND 0x01),
           HeaderExtensionFlag := ucast (drop_bit 4 (ucast (rawBuffer 0) :: u32) AND 0x01),
           CSRCCount := ucast ((ucast (rawBuffer 0) :: u32) AND 0x0f),
           MarkerBit := ucast (drop_bit 7 (ucast (rawBuffer 1) :: u32) AND 0x01),
           PayloadType := ucast ((ucast (rawBuffer 1) :: u32) AND 0x7f),
           SeqNum := read_16 buffer (startPosn + 2),
           Timestamp := read_32 buffer (startPosn + 4),
           SyncSource := read_32 buffer (startPosn + 8)\<rparr>)))"

text \<open>
  ``Fields within their declared bit widths'': the widths that the comments of lines
  58--66 declare for the fields that are narrower than their C type.
\<close>

definition fields_within_widths :: "RtpHeader \<Rightarrow> bool" where
  "fields_within_widths h \<longleftrightarrow>
     Version h < 4 \<and> PaddingFlag h < 2 \<and> HeaderExtensionFlag h < 2 \<and> CSRCCount h < 16
     \<and> MarkerBit h < 2 \<and> PayloadType h < 128"

text \<open>The version bits of a serialised header: the top two bits of its first byte.\<close>

definition version_bits :: "u8 \<Rightarrow> u8" where
  "version_bits byte0 = drop_bit 6 byte0"

text \<open>The two bytes that lines 70 and 71 push, as functions of the fields.\<close>

definition rtp_byte0 :: "u8 \<Rightarrow> u8 \<Rightarrow> u8 \<Rightarrow> u8 \<Rightarrow> u8" where
  "rtp_byte0 v p x c = ucast ((push_bit 6 (ucast v :: u32) AND 0xc0) OR (push_bit 5 (ucast p) AND 0x20)
    OR (push_bit 4 (ucast x) AND 0x10) OR (ucast c AND 0x0f))"

definition rtp_byte1 :: "u8 \<Rightarrow> u16 \<Rightarrow> u8" where
  "rtp_byte1 m pt = ucast ((push_bit 7 (ucast m :: u32) AND 0x80) OR (ucast pt AND 0x7f))"

section \<open>The RTP JPEG payload header (mjpeg.h, class JpegRtpHeader)\<close>

record JpegRtpHeader =
  TypeSpecifier :: u8
  Offset :: u32
  Type :: u8
  Q :: u8
  Width :: u8
  Height :: u8
  Mbz :: u8
  Precision :: u8
  Length :: u16
  QTable :: "u8 list"

definition JPEG_MIN_HEADER_LENGTH :: int where
  "JPEG_MIN_HEADER_LENGTH = 8"

definition JPEG_DEFAULT_TYPE_SPECIFIER :: int where
  "JPEG_DEFAULT_TYPE_SPECIFIER = 0"

definition JPEG_TYPE_RESTART_MARKER_START :: int where
  "JPEG_TYPE_RESTART_MARKER_START = 64"

definition JPEG_TYPE_RESTART_MARKER_END :: int where
  "JPEG_TYPE_RESTART_MARKER_END = 127"

definition JPEG_QUANTIZATION_HEADER_LENGTH :: int where
  "JPEG_QUANTIZATION_HEADER_LENGTH = 4"

definition Q_TABLE_INBAND_MINIMUM :: int where
  "Q_TABLE_INBAND_MINIMUM = 128"

text \<open>
  Lines 155--199. The six base fields are assigned before the two checks that throw, and
  \<^verbatim>\<open>Mbz\<close>, \<^verbatim>\<open>Precision\<close> and \<^verbatim>\<open>Length\<close> before the check of the table length.
  \<^verbatim>\<open>std::copy\<close> with a \<^verbatim>\<open>back_inserter\<close> appends to \<^verbatim>\<open>QTable\<close>. The first
  \<open>OutOfBounds\<close> branch is the wrapped length check; the two later ones keep the model
  total and are not reached by a vector of fewer than \<open>2\<^sup>6\<^sup>4\<close> bytes.
\<close>

definition JpegRtpHeader_Deserialise ::
  "JpegRtpHeader \<Rightarrow> u8 list \<Rightarrow> int \<Rightarrow> JpegRtpHeader outcome" where
  "JpegRtpHeader_Deserialise this buffer startPosn =
     (if size_t (int (length buffer) - startPosn) < size_t JPEG_MIN_HEADER_LENGTH then
        Thrown (runtime_error
          ''The available buffer size was less than the minimum JPEG RTP header length.'') this
      else if startPosn < 0 \<or> int (length buffer) < startPosn + 8 then OutOfBounds
      else
        (let rawBuffer = (\<lambda>i. buffer ! nat (startPosn + i));
             this = this\<lparr>TypeSpecifier := rawBuffer 0,
                          Offset := read_24 buffer (startPosn + 1),
                          Type := rawBuffer 4,
                          Q := rawBuffer 5,
                          Width := rawBuffer 6,
                          Height := rawBuffer 7\<rparr>
         in
         if uint (TypeSpecifier this) \<noteq> JPEG_DEFAULT_TYPE_SPECIFIER then
           Thrown (runtime_error
             ''This implementation does not support a non default RTP JPEG type specifier.'') this
         else if uint (Type this) \<ge> JPEG_TYPE_RESTART_MARKER_START
                 \<and> uint (Type this) \<le> JPEG_TYPE_RESTART_MARKER_END then
           Thrown (runtime_error ''This implementation does not support JPEG restarts.'') this
         else if Offset this = 0 \<and> uint (Q this) \<ge> Q_TABLE_INBAND_MINIMUM then
           (if size_t (int (length buffer) - startPosn - JPEG_MIN_HEADER_LENGTH)
                 < size_t JPEG_QUANTIZATION_HEADER_LENGTH then
              Thrown (runtime_error
                ''The available buffer size was less than the minimum JPEG RTP header length.'') this
            else if int (length buffer) < startPosn + 12 then OutOfBounds
            else
              (let this = this\<lparr>Mbz := rawBuffer 8,
                                Precision := rawBuffer 9,
                                Length := read_16 buffer (startPosn + 10)\<rparr>
               in
               if Length this > 0 then
                 (if size_t (int (length buffer) - startPosn - JPEG_MIN_HEADER_LENGTH
                              - JPEG_QUANTIZATION_HEADER_LENGTH) < size_t (uint (Length this)) then
                    Thrown (runtime_error
                      ''The available buffer size is shorter than the JPEG Quantization header length.'') this
                  else if int (length buffer) < startPosn + 12 + uint (Length this) then OutOfBounds
                  else
                    Returned (this\<lparr>QTable := QTable this @
                       take (unat (Length this))
                         (drop (nat (startPosn + JPEG_MIN_HEADER_LENGTH
                                      + JPEG_QUANTIZATION_HEADER_LENGTH)) buffer)\<rparr>))
               else Returned this))
         else Returned this))"

text \<open>
  The spec's error kinds (section 7), each as the exception that the source throws at
  the place the spec names: lines 157, 170, 173, 179 and 188.
\<close>

definition JpegTruncatedBuffer :: runtime_error where
  "JpegTruncatedBuffer =
     runtime_error ''The available buffer size was less than the minimum JPEG RTP header length.''"

definition UnsupportedTypeSpecifier :: runtime_error where
  "UnsupportedTypeSpecifier =
     runtime_error ''This implementation does not support a non default RTP JPEG type specifier.''"

definition UnsupportedRestartMarkers :: runtime_error where
  "UnsupportedRestartMarkers = runtime_error ''This implementation does not support JPEG restarts.''"

definition TruncatedQuantizationHeader :: runtime_error where
  "TruncatedQuantizationHeader =
     runtime_error ''The available buffer size was less than the minimum JPEG RTP header length.''"

definition TruncatedQuantizationTable :: runtime_error where
  "TruncatedQuantizationTable =
     runtime_error ''The available buffer size is shorter than the JPEG Quantization header length.''"

text \<open>
  The object after the six assignments of lines 161--166, and after the three
  assignments of lines 182--184; the theorems name the states of the object with them.
\<close>

definition base_fields :: "JpegRtpHeader \<Rightarrow> u8 list \<Rightarrow> int \<Rightarrow> JpegRtpHeader" where
  "base_fields this buffer startPosn =
     this\<lparr>TypeSpecifier := buffer ! nat startPosn,
          Offset := read_24 buffer (startPosn + 1),
          Type := buffer ! nat (startPosn + 4),
          Q := buffer ! nat (startPosn + 5),
          Width := buffer ! nat (startPosn + 6),
          Height := buffer ! nat (startPosn + 7)\<rparr>"

definition quantization_fields :: "JpegRtpHeader \<Rightarrow> u8 list \<Rightarrow> int \<Rightarrow> JpegRtpHeader" where
  "quantization_fields this buffer startPosn =
     this\<lparr>Mbz := buffer ! nat (startPosn + 8),
          Precision := buffer ! nat (startPosn + 9),
          Length := read_16 buffer (startPosn + 10)\<rparr>"

text \<open>
  An object as its constructor leaves it: \<^verbatim>\<open>Mbz\<close>, \<^verbatim>\<open>Precision\<close> and \<^verbatim>\<open>Length\<close> are
  initialised to 0 and \<^verbatim>\<open>QTable\<close> is empty; the six base fields have no initialiser and
  are taken as 0 in the examples.
\<close>

definition fresh_JpegRtpHeader :: JpegRtpHeader where
  "fresh_JpegRtpHeader =
     \<lparr>TypeSpecifier = 0, Offset = 0, Type = 0, Q = 0, Width = 0, Height = 0,
      Mbz = 0, Precision = 0, Length = 0, QTable = []\<rparr>"

text \<open>
  An \<^verbatim>\<open>RtpHeader\<close> as its member initialisers leave it (lines 58--66): \<^verbatim>\<open>Version\<close> is
  \<^verbatim>\<open>RTP_VERSION\<close> and every other field is 0. The second header is for the examples.
\<close>

definition new_RtpHeader :: RtpHeader where
  "new_RtpHeader =
     \<lparr>Version = word_of_int RTP_VERSION, PaddingFlag = 0, HeaderExtensionFlag = 0,
      CSRCCount = 0, MarkerBit = 0, PayloadType = 0, SeqNum = 0, Timestamp = 0, SyncSource = 0\<rparr>"

definition example_RtpHeader :: RtpHeader where
  "example_RtpHeader =
     \<lparr>Version = 1, PaddingFlag = 0, HeaderExtensionFlag = 0, CSRCCount = 0, MarkerBit = 1,
      PayloadType = 26, SeqNum = 0x1234, Timestamp = 0xCAFEBABE, SyncSource = 0x01020304\<rparr>"

section \<open>Huffman tables (mjpeg.h, class Huffman)\<close>

text \<open>The constant tables of lines 210--269.\<close>

definition avpriv_mjpeg_bits_dc_luminance :: "u8 list" where
  "avpriv_mjpeg_bits_dc_luminance =
     [0, 0, 1, 5, 1, 1, 1, 1,
      1, 1, 0, 0, 0, 0, 0, 0,
      0]"

definition avpriv_mjpeg_val_dc :: "u8 list" where
  "avpriv_mjpeg_val_dc =
     [0, 1, 2, 3, 4, 5, 6, 7,
      8, 9, 10, 11]"

definition avpriv_mjpeg_bits_dc_chrominance :: "u8 list" where
  "avpriv_mjpeg_bits_dc_chrominance =
     [0, 0, 3, 1, 1, 1, 1, 1,
      1, 1, 1, 1, 0, 0, 0, 0,
      0]"

definition avpriv_mjpeg_bits_ac_luminance :: "u8 list" where
  "avpriv_mjpeg_bits_ac_luminance =
     [0, 0, 2, 1, 3, 3, 2, 4,
      3, 5, 5, 4, 4, 0, 0, 1,
      0x7d]"

definition avpriv_mjpeg_val_ac_luminance :: "u8 list" where
  "avpriv_mjpeg_val_ac_luminance =
     [0x01, 0x02, 0x03, 0x00, 0x04, 0x11, 0x05, 0x12,
      0x21, 0x31, 0x41, 0x06, 0x13, 0x51, 0x61, 0x07,
      0x22, 0x71, 0x14, 0x32, 0x81, 0x91, 0xa1, 0x08,
      0x23, 0x42, 0xb1, 0xc1, 0x15, 0x52, 0xd1, 0xf0,
      0x24, 0x33, 0x62, 0x72, 0x82, 0x09, 0x0a, 0x16,
      0x17, 0x18, 0x19, 0x1a, 0x25, 0x26, 0x27, 0x28,
      0x29, 0x2a, 0x34, 0x35, 0x36, 0x37, 0x38, 0x39,
      0x3a, 0x43, 0x44, 0x45, 0x46, 0x47, 0x48, 0x49,
      0x4a, 0x53, 0x54, 0x55, 0x56, 0x57, 0x58, 0x59,
      0x5a, 0x63, 0x64, 0x65, 0x66, 0x67, 0x68, 0x69,
      0x6a, 0x73, 0x74, 0x75, 0x76, 0x77, 0x78, 0x79,
      0x7a, 0x83, 0x84, 0x85, 0x86, 0x87, 0x88, 0x89,
      0x8a, 0x92, 0x93, 0x94, 0x95, 0x96, 0x97, 0x98,
      0x99, 0x9a, 0xa2, 0xa3, 0xa4, 0xa5, 0xa6, 0xa7,
      0xa8, 0xa9, 0xaa, 0xb2, 0xb3, 0xb4, 0xb5, 0xb6,
      0xb7, 0xb8, 0xb9, 0xba, 0xc2, 0xc3, 0xc4, 0xc5,
      0xc6, 0xc7, 0xc8, 0xc9, 0xca, 0xd2, 0xd3, 0xd4,
      0xd5, 0xd6, 0xd7, 0xd8, 0xd9, 0xda, 0xe1, 0xe2,
      0xe3, 0xe4, 0xe5, 0xe6, 0xe7, 0xe8, 0xe9, 0xea,
      0xf1, 0xf2, 0xf3, 0xf4, 0xf5, 0xf6, 0xf7, 0xf8,
      0xf9, 0xfa]"

definition avpriv_mjpeg_bits_ac_chrominance :: "u8 list" where
  "avpriv_mjpeg_bits_ac_chrominance =
     [0, 0, 2, 1, 2, 4, 4, 3,
      4, 7, 5, 4, 4, 0, 1, 2,
      0x77]"

definition avpriv_mjpeg_val_ac_chrominance :: "u8 list" where
  "avpriv_mjpeg_val_ac_chrominance =
     [0x00, 0x01, 0x02, 0x03, 0x11, 0x04, 0x05, 0x21,
      0x31, 0x06, 0x12, 0x41, 0x51, 0x07, 0x61, 0x71,
      0x13, 0x22, 0x32, 0x81, 0x08, 0x14, 0x42, 0x91,
      0xa1, 0xb1, 0xc1, 0x09, 0x23, 0x33, 0x52, 0xf0,
      0x15, 0x62, 0x72, 0xd1, 0x0a, 0x16, 0x24, 0x34,
      0xe1, 0x25, 0xf1, 0x17, 0x18, 0x19, 0x1a, 0x26,
      0x27, 0x28, 0x29, 0x2a, 0x35, 0x36, 0x37, 0x38,
      0x39, 0x3a, 0x43, 0x44, 0x45, 0x46, 0x47, 0x48,
      0x49, 0x4a, 0x53, 0x54, 0x55, 0x56, 0x57, 0x58,
      0x59, 0x5a, 0x63, 0x64, 0x65, 0x66, 0x67, 0x68,
      0x69, 0x6a, 0x73, 0x74, 0x75, 0x76, 0x77, 0x78,
      0x79, 0x7a, 0x82, 0x83, 0x84, 0x85, 0x86, 0x87,
      0x88, 0x89, 0x8a, 0x92, 0x93, 0x94, 0x95, 0x96,
      0x97, 0x98, 0x99, 0x9a, 0xa2, 0xa3, 0xa4, 0xa5,
      0xa6, 0xa7, 0xa8, 0xa9, 0xaa, 0xb2, 0xb3, 0xb4,
      0xb5, 0xb6, 0xb7, 0xb8, 0xb9, 0xba, 0xc2, 0xc3,
      0xc4, 0xc5, 0xc6, 0xc7, 0xc8, 0xc9, 0xca, 0xd2,
      0xd3, 0xd4, 0xd5, 0xd6, 0xd7, 0xd8, 0xd9, 0xda,
      0xe2, 0xe3, 0xe4, 0xe5, 0xe6, 0xe7, 0xe8, 0xe9,
      0xea, 0xf2, 0xf3, 0xf4, 0xf5, 0xf6, 0xf7, 0xf8,
      0xf9, 0xfa]"

text \<open>
  The state of \<^verbatim>\<open>ff_mjpeg_build_huffman_codes\<close> (lines 272--301): the two output arrays
  and the locals \<^verbatim>\<open>k\<close> and \<^verbatim>\<open>code\<close>. The arrays are indexed by a symbol, a byte read
  from \<^verbatim>\<open>val_table\<close>, so they are functions on bytes (the caller's arrays hold 256
  entries, \<open>codeLength[256]\<close> and \<open>code[256]\<close> in the spec). \<^verbatim>\<open>code\<close> is a C \<^verbatim>\<open>int\<close>: it
  grows by at most 255 per length and doubles 16 times, which stays below \<open>2\<^sup>3\<^sup>1\<close>.
\<close>

record huffman_state =
  huff_size :: "u8 \<Rightarrow> u8"
  huff_code :: "u8 \<Rightarrow> u16"
  k :: nat
  code :: int

text \<open>The body of the inner loop, lines 292--297, for code length \<open>i\<close>.\<close>

definition huffman_assign :: "u8 list \<Rightarrow> nat \<Rightarrow> huffman_state \<Rightarrow> huffman_state" where
  "huffman_assign val_table i st =
     (let sym = val_table ! k st;
          st = st\<lparr>k := k st + 1\<rparr>;
          st = (if sym \<noteq> 0 \<or> huff_size st sym = 0
                then st\<lparr>huff_size := (huff_size st)(sym := of_nat i),
                        huff_code := (huff_code st)(sym := word_of_int (code st))\<rparr>
                else st)
      in st\<lparr>code := code st + 1\<rparr>)"

text \<open>
  The inner loop \<^verbatim>\<open>for (j = 0; j < nb; j++)\<close>. Reading \<^verbatim>\<open>val_table\<close> past its end is
  undefined in C; the model returns \<open>None\<close> there.
\<close>

function huffman_inner ::
  "u8 list \<Rightarrow> nat \<Rightarrow> nat \<Rightarrow> nat \<Rightarrow> huffman_state \<Rightarrow> huffman_state option" where
  "huffman_inner val_table i nb j st =
     (if j < nb then
        (if k st < length val_table
         then huffman_inner val_table i nb (j + 1) (huffman_assign val_table i st)
         else None)
      else Some st)"
  by pat_completeness auto
termination
  by (relation "measure (\<lambda>(vt, i, nb, j, st). nb - j)") auto

declare huffman_inner.simps [simp del]

text \<open>
  The outer loop \<^verbatim>\<open>for (i = 1; i <= 16; i++)\<close>; \<^verbatim>\<open>code <<= 1\<close> doubles the counter.
  \<^verbatim>\<open>bits_table\<close> has 17 entries; a shorter one is read past its end (\<open>None\<close>).
\<close>

function huffman_outer ::
  "u8 list \<Rightarrow> u8 list \<Rightarrow> nat \<Rightarrow> huffman_state \<Rightarrow> huffman_state option" where
  "huffman_outer bits_table val_table i st =
     (if i \<le> 16 then
        (if i < length bits_table then
           (case huffman_inner val_table i (unat (bits_table ! i)) 0 st of
              None \<Rightarrow> None
            | Some st \<Rightarrow> huffman_outer bits_table val_table (i + 1) (st\<lparr>code := code st * 2\<rparr>))
         else None)
      else Some st)"
  by pat_completeness auto
termination
  by (relation "measure (\<lambda>(bt, vt, i, st). 17 - i)") auto

declare huffman_outer.simps [simp del]

definition ff_mjpeg_build_huffman_codes ::
  "(u8 \<Rightarrow> u8) \<Rightarrow> (u8 \<Rightarrow> u16) \<Rightarrow> u8 list \<Rightarrow> u8 list \<Rightarrow> ((u8 \<Rightarrow> u8) \<times> (u8 \<Rightarrow> u16)) option" where
  "ff_mjpeg_build_huffman_codes huff_size0 huff_code0 bits_table val_table =
     map_option (\<lambda>st. (huff_size st, huff_code st))
       (huffman_outer bits_table val_table 1
          \<lparr>huff_size = huff_size0(0 := 0), huff_code = huff_code0, k = 0, code = 0\<rparr>)"

text \<open>
  The spec's wording of canonical code assignment (section 4.4): walk the code lengths;
  for each length give the next \<open>nb\<close> symbols of the value table consecutive codes, then
  shift the running code left by one. The result lists, in value-table order, each
  symbol with its length and code.
\<close>

fun consecutive_codes :: "nat \<Rightarrow> int \<Rightarrow> u8 list \<Rightarrow> (u8 \<times> nat \<times> int) list" where
  "consecutive_codes len c [] = []"
| "consecutive_codes len c (s # ss) = (s, len, c) # consecutive_codes len (c + 1) ss"

fun canonical_codes :: "nat \<Rightarrow> int \<Rightarrow> nat list \<Rightarrow> u8 list \<Rightarrow> (u8 \<times> nat \<times> int) list" where
  "canonical_codes len c [] vals = []"
| "canonical_codes len c (nb # counts) vals =
     consecutive_codes len c (take nb vals)
       @ canonical_codes (len + 1) ((c + int nb) * 2) counts (drop nb vals)"

definition spec_counts :: "u8 list \<Rightarrow> nat list" where
  "spec_counts bits_table = map unat (take 16 (drop 1 bits_table))"

definition spec_codes :: "u8 list \<Rightarrow> u8 list \<Rightarrow> (u8 \<times> nat \<times> int) list" where
  "spec_codes bits_table val_table = canonical_codes 1 0 (spec_counts bits_table) val_table"

text \<open>The first and the last entry of such a list for a symbol.\<close>

definition first_entry :: "u8 \<Rightarrow> (u8 \<times> nat \<times> int) list \<Rightarrow> (nat \<times> int) option" where
  "first_entry symbol es = map_of es symbol"

definition last_entry :: "u8 \<Rightarrow> (u8 \<times> nat \<times> int) list \<Rightarrow> (nat \<times> int) option" where
  "last_entry symbol es = map_of (rev es) symbol"

text \<open>
  Auxiliary: the two arrays of a state, and the effect of lines 293--296 on them for one
  entry of such a list.
\<close>

definition tables :: "huffman_state \<Rightarrow> (u8 \<Rightarrow> u8) \<times> (u8 \<Rightarrow> u16)" where
  "tables st = (huff_size st, huff_code st)"

fun assign_entry ::
  "(u8 \<Rightarrow> u8) \<times> (u8 \<Rightarrow> u16) \<Rightarrow> u8 \<times> nat \<times> int \<Rightarrow> (u8 \<Rightarrow> u8) \<times> (u8 \<Rightarrow> u16)" where
  "assign_entry (hs, hc) (s, len, c) =
     (if s \<noteq> 0 \<or> hs s = 0 then (hs(s := of_nat len), hc(s := word_of_int c)) else (hs, hc))"

text \<open>
  The function as it would be without the guard of line 293, every occurrence assigned:
  the comparison program of the claim about skipped duplicates.
\<close>

definition huffman_assign_always :: "u8 list \<Rightarrow> nat \<Rightarrow> huffman_state \<Rightarrow> huffman_state" where
  "huffman_assign_always val_table i st =
     (let sym = val_table ! k st;
          st = st\<lparr>k := k st + 1\<rparr>;
          st = st\<lparr>huff_size := (huff_size st)(sym := of_nat i),
                  huff_code := (huff_code st)(sym := word_of_int (code st))\<rparr>
      in st\<lparr>code := code st + 1\<rparr>)"

function huffman_inner_always ::
  "u8 list \<Rightarrow> nat \<Rightarrow> nat \<Rightarrow> nat \<Rightarrow> huffman_state \<Rightarrow> huffman_state option" where
  "huffman_inner_always val_table i nb j st =
     (if j < nb then
        (if k st < length val_table
         then huffman_inner_always val_table i nb (j + 1) (huffman_assign_always val_table i st)
         else None)
      else Some st)"
  by pat_completeness auto
termination
  by (relation "measure (\<lambda>(vt, i, nb, j, st). nb - j)") auto

declare huffman_inner_always.simps [simp del]

function huffman_outer_always ::
  "u8 list \<Rightarrow> u8 list \<Rightarrow> nat \<Rightarrow> huffman_state \<Rightarrow> huffman_state option" where
  "huffman_outer_always bits_table val_table i st =
     (if i \<le> 16 then
        (if i < length bits_table then
           (case huffman_inner_always val_table i (unat (bits_table ! i)) 0 st of
              None \<Rightarrow> None
            | Some st \<Rightarrow>
                huffman_outer_always bits_table val_table (i + 1) (st\<lparr>code := code st * 2\<rparr>))
         else None)
      else Some st)"
  by pat_completeness auto
termination
  by (relation "measure (\<lambda>(bt, vt, i, st). 17 - i)") auto

declare huffman_outer_always.simps [simp del]

definition ff_mjpeg_build_huffman_codes_always ::
  "(u8 \<Rightarrow> u8) \<Rightarrow> (u8 \<Rightarrow> u16) \<Rightarrow> u8 list \<Rightarrow> u8 list \<Rightarrow> ((u8 \<Rightarrow> u8) \<times> (u8 \<Rightarrow> u16)) option" where
  "ff_mjpeg_build_huffman_codes_always huff_size0 huff_code0 bits_table val_table =
     map_option (\<lambda>st. (huff_size st, huff_code st))
       (huffman_outer_always bits_table val_table 1
          \<lparr>huff_size = huff_size0(0 := 0), huff_code = huff_code0, k = 0, code = 0\<rparr>)"

text \<open>
  Two states agree when the counters \<^verbatim>\<open>k\<close> and \<^verbatim>\<open>code\<close> are equal and every non-zero
  symbol has the same length and code.
\<close>

definition agree :: "huffman_state \<Rightarrow> huffman_state \<Rightarrow> bool" where
  "agree st st' \<longleftrightarrow>
     k st = k st' \<and> code st = code st'
     \<and> (\<forall>s. s \<noteq> 0 \<longrightarrow> huff_size st s = huff_size st' s \<and> huff_code st s = huff_code st' s)"

section \<open>The JFIF header builder (mjpeg.h, class Jfif)\<close>

text \<open>
  Modelled from the spec: the byte writer (\<^verbatim>\<open>PutByteContext\<close>, \<^verbatim>\<open>bytestream2_init_writer\<close>,
  \<^verbatim>\<open>bytestream2_put_byte\<close>, \<^verbatim>\<open>bytestream2_put_be16\<close>, \<^verbatim>\<open>bytestream2_put_buffer\<close>,
  \<^verbatim>\<open>bytestream2_tell_p\<close>, \<^verbatim>\<open>AV_WB16\<close>) is not among the sources. The spec has the builder
  emit the segments in order into an output buffer and return the number of bytes
  written, with 16-bit fields big-endian; it gives the writer no failure mode. So a
  writer is the list of the bytes written so far: each put appends (a byte is the low 8
  bits of its \<^verbatim>\<open>int\<close> argument, a 16-bit value the low 16 bits), \<^verbatim>\<open>tell\<close> is the length,
  and \<^verbatim>\<open>AV_WB16\<close> overwrites two bytes at a saved position. The capacity \<^verbatim>\<open>size\<close> of the
  caller's buffer is taken to suffice.
\<close>

type_synonym PutByteContext = "u8 list"

definition bytestream2_init_writer :: "int \<Rightarrow> PutByteContext" where
  "bytestream2_init_writer buf_size = []"

definition bytestream2_put_byte :: "PutByteContext \<Rightarrow> int \<Rightarrow> PutByteContext" where
  "bytestream2_put_byte p v = p @ [word_of_int v]"

definition bytestream2_put_be16 :: "PutByteContext \<Rightarrow> int \<Rightarrow> PutByteContext" where
  "bytestream2_put_be16 p v = p @ [word_of_int (v div 256), word_of_int v]"

definition bytestream2_put_buffer :: "PutByteContext \<Rightarrow> u8 list \<Rightarrow> nat \<Rightarrow> PutByteContext" where
  "bytestream2_put_buffer p src n = p @ take n src"

definition bytestream2_tell_p :: "PutByteContext \<Rightarrow> int" where
  "bytestream2_tell_p p = int (length p)"

definition AV_WB16 :: "PutByteContext \<Rightarrow> nat \<Rightarrow> int \<Rightarrow> PutByteContext" where
  "AV_WB16 p pos v = p[pos := word_of_int (v div 256), pos + 1 := word_of_int v]"

text \<open>A C string literal as bytes, with its terminating zero.\<close>

definition c_string :: "string \<Rightarrow> u8 list" where
  "c_string s = map of_char s @ [0]"

text \<open>The marker codes of \<^verbatim>\<open>enum JpegMarker\<close> (lines 310--389) that the builder emits.\<close>

definition SOF0 :: int where "SOF0 = 0xc0"
definition DHT :: int where "DHT = 0xc4"
definition SOI :: int where "SOI = 0xd8"
definition SOS :: int where "SOS = 0xda"
definition DQT :: int where "DQT = 0xdb"
definition DRI :: int where "DRI = 0xdd"
definition APP0 :: int where "APP0 = 0xe0"

text \<open>
  Lines 395--412. The two loops read \<^verbatim>\<open>bits_table[1..16]\<close> and the first \<open>n\<close> entries of
  \<^verbatim>\<open>value_table\<close>; the builder passes the constant tables, which are long enough.
\<close>

function huffman_table_bits ::
  "PutByteContext \<Rightarrow> u8 list \<Rightarrow> nat \<Rightarrow> int \<Rightarrow> PutByteContext \<times> int" where
  "huffman_table_bits p bits_table i n =
     (if i \<le> 16 then
        (let n = n + uint (bits_table ! i);
             p = bytestream2_put_byte p (uint (bits_table ! i))
         in huffman_table_bits p bits_table (i + 1) n)
      else (p, n))"
  by pat_completeness auto
termination
  by (relation "measure (\<lambda>(p, bt, i, n). 17 - i)") auto

declare huffman_table_bits.simps [simp del]

function huffman_table_values ::
  "PutByteContext \<Rightarrow> u8 list \<Rightarrow> nat \<Rightarrow> int \<Rightarrow> PutByteContext" where
  "huffman_table_values p value_table i n =
     (if int i < n then
        huffman_table_values (bytestream2_put_byte p (uint (value_table ! i))) value_table (i + 1) n
      else p)"
  by pat_completeness auto
termination
  by (relation "measure (\<lambda>(p, vt, i, n). nat n - i)") auto

declare huffman_table_values.simps [simp del]

definition jpeg_create_huffman_table ::
  "PutByteContext \<Rightarrow> int \<Rightarrow> int \<Rightarrow> u8 list \<Rightarrow> u8 list \<Rightarrow> PutByteContext \<times> int" where
  "jpeg_create_huffman_table p table_class table_id bits_table value_table =
     (let p = bytestream2_put_byte p (push_bit 4 table_class OR table_id);
          (p, n) = huffman_table_bits p bits_table 1 0;
          p = huffman_table_values p value_table 0 n
      in (p, n + 17))"

definition jpeg_put_marker :: "PutByteContext \<Rightarrow> int \<Rightarrow> PutByteContext" where
  "jpeg_put_marker pbc c = bytestream2_put_byte (bytestream2_put_byte pbc 0xff) c"

text \<open>
  The loop of lines 458--465 over the quantization tables. \<^verbatim>\<open>qtable + 64 * i\<close> is the
  rest of the caller's array from entry \<open>64 * i\<close>; the caller supplies \<^verbatim>\<open>nb_qtable\<close> tables
  of 64 bytes.
\<close>

function put_qtables :: "PutByteContext \<Rightarrow> u8 list \<Rightarrow> int \<Rightarrow> int \<Rightarrow> PutByteContext" where
  "put_qtables pbc qtable nb_qtable i =
     (if i < nb_qtable then
        (let pbc = bytestream2_put_byte pbc i;
             pbc = bytestream2_put_buffer pbc (drop (nat (64 * i)) qtable) 64
         in put_qtables pbc qtable nb_qtable (i + 1))
      else pbc)"
  by pat_completeness auto
termination
  by (relation "measure (\<lambda>(p, qt, nb, i). nat (nb - i))") auto

declare put_qtables.simps [simp del]

text \<open>
  Lines 420--516. \<^verbatim>\<open>w\<close> and \<^verbatim>\<open>h\<close> are \<^verbatim>\<open>uint32_t\<close>, so \<^verbatim>\<open>w <<= 3\<close> wraps at 32 bits;
  \<^verbatim>\<open>dht_size_ptr\<close> is the position of the two length bytes of the DHT segment. The
  result is the buffer contents and the returned length.
\<close>

definition jpeg_create_header ::
  "int \<Rightarrow> u32 \<Rightarrow> u32 \<Rightarrow> u32 \<Rightarrow> u8 list \<Rightarrow> int \<Rightarrow> int \<Rightarrow> u8 list \<times> int" where
  "jpeg_create_header buf_size type w h qtable nb_qtable dri =
     (let pbc = bytestream2_init_writer buf_size;
          w = push_bit 3 w;
          h = push_bit 3 h;
          pbc = jpeg_put_marker pbc SOI;
          pbc = jpeg_put_marker pbc APP0;
          pbc = bytestream2_put_be16 pbc 16;
          pbc = bytestream2_put_buffer pbc (c_string ''JFIF'') 5;
          pbc = bytestream2_put_be16 pbc 0x0201;
          pbc = bytestream2_put_byte pbc 0;
          pbc = bytestream2_put_be16 pbc 1;
          pbc = bytestream2_put_be16 pbc 1;
          pbc = bytestream2_put_byte pbc 0;
          pbc = bytestream2_put_byte pbc 0;
          pbc = (if dri \<noteq> 0 then
                   (let pbc = jpeg_put_marker pbc DRI;
                        pbc = bytestream2_put_be16 pbc 4
                    in bytestream2_put_be16 pbc dri)
                 else pbc);
          pbc = jpeg_put_marker pbc DQT;
          pbc = bytestream2_put_be16 pbc (2 + nb_qtable * (1 + 64));
          pbc = put_qtables pbc qtable nb_qtable 0;
          pbc = jpeg_put_marker pbc DHT;
          dht_size_ptr = length pbc;
          pbc = bytestream2_put_be16 pbc 0;
          dht_size = 2;
          (pbc, n) = jpeg_create_huffman_table pbc 0 0 avpriv_mjpeg_bits_dc_luminance
                       avpriv_mjpeg_val_dc;
          dht_size = dht_size + n;
          (pbc, n) = jpeg_create_huffman_table pbc 0 1 avpriv_mjpeg_bits_dc_chrominance
                       avpriv_mjpeg_val_dc;
          dht_size = dht_size + n;
          (pbc, n) = jpeg_create_huffman_table pbc 1 0 avpriv_mjpeg_bits_ac_luminance
                       avpriv_mjpeg_val_ac_luminance;
          dht_size = dht_size + n;
          (pbc, n) = jpeg_create_huffman_table pbc 1 1 avpriv_mjpeg_bits_ac_chrominance
                       avpriv_mjpeg_val_ac_chrominance;
          dht_size = dht_size + n;
          pbc = AV_WB16 pbc dht_size_ptr dht_size;
          pbc = jpeg_put_marker pbc SOF0;
          pbc = bytestream2_put_be16 pbc 17;
          pbc = bytestream2_put_byte pbc 8;
          pbc = bytestream2_put_be16 pbc (uint h);
          pbc = bytestream2_put_be16 pbc (uint w);
          pbc = bytestream2_put_byte pbc 3;
          pbc = bytestream2_put_byte pbc 1;
          pbc = bytestream2_put_byte pbc (push_bit 4 2 OR (if type \<noteq> 0 then 2 else 1));
          pbc = bytestream2_put_byte pbc 0;
          pbc = bytestream2_put_byte pbc 2;
          pbc = bytestream2_put_byte pbc (push_bit 4 1 OR 1);
          pbc = bytestream2_put_byte pbc (if nb_qtable = 2 then 1 else 0);
          pbc = bytestream2_put_byte pbc 3;
          pbc = bytestream2_put_byte pbc (push_bit 4 1 OR 1);
          pbc = bytestream2_put_byte pbc (if nb_qtable = 2 then 1 else 0);
          pbc = jpeg_put_marker pbc SOS;
          pbc = bytestream2_put_be16 pbc 12;
          pbc = bytestream2_put_byte pbc 3;
          pbc = bytestream2_put_byte pbc 1;
          pbc = bytestream2_put_byte pbc 0;
          pbc = bytestream2_put_byte pbc 2;
          pbc = bytestream2_put_byte pbc 17;
          pbc = bytestream2_put_byte pbc 3;
          pbc = bytestream2_put_byte pbc 17;
          pbc = bytestream2_put_byte pbc 0;
          pbc = bytestream2_put_byte pbc 63;
          pbc = bytestream2_put_byte pbc 0
      in (pbc, bytestream2_tell_p pbc))"

text \<open>
  The layout of the header (section 4.5 of the spec), segment by segment, as explicit
  bytes; the properties of the builder are stated against it. \<open>dht_table_bytes\<close> is one
  table of the DHT segment: the class/id byte, the 16 counts and the symbols.
\<close>

definition dht_table_bytes :: "int \<Rightarrow> int \<Rightarrow> u8 list \<Rightarrow> u8 list \<Rightarrow> u8 list" where
  "dht_table_bytes table_class table_id bits_table value_table =
     word_of_int (push_bit 4 table_class OR table_id) # tl bits_table
       @ take (sum_list (map unat (tl bits_table))) value_table"

definition soi_app0_segment :: "u8 list" where
  "soi_app0_segment =
     [0xFF, 0xD8, 0xFF, 0xE0, 0x00, 0x10, 0x4A, 0x46, 0x49, 0x46, 0x00, 0x02, 0x01, 0x00,
      0x00, 0x01, 0x00, 0x01, 0x00, 0x00]"

definition dri_segment :: "int \<Rightarrow> u8 list" where
  "dri_segment dri =
     (if dri \<noteq> 0 then [0xFF, 0xDD, 0x00, 0x04, word_of_int (dri div 256), word_of_int dri]
      else [])"

definition dqt_segment :: "u8 list \<Rightarrow> int \<Rightarrow> u8 list" where
  "dqt_segment qtable nb_qtable =
     [0xFF, 0xDB, word_of_int ((2 + nb_qtable * 65) div 256), word_of_int (2 + nb_qtable * 65)]
       @ put_qtables [] qtable nb_qtable 0"

definition dht_tables :: "u8 list" where
  "dht_tables =
     dht_table_bytes 0 0 avpriv_mjpeg_bits_dc_luminance avpriv_mjpeg_val_dc
     @ dht_table_bytes 0 1 avpriv_mjpeg_bits_dc_chrominance avpriv_mjpeg_val_dc
     @ dht_table_bytes 1 0 avpriv_mjpeg_bits_ac_luminance avpriv_mjpeg_val_ac_luminance
     @ dht_table_bytes 1 1 avpriv_mjpeg_bits_ac_chrominance avpriv_mjpeg_val_ac_chrominance"

definition sof0_segment :: "u32 \<Rightarrow> u32 \<Rightarrow> u32 \<Rightarrow> int \<Rightarrow> u8 list" where
  "sof0_segment type w h nb_qtable =
     [0xFF, 0xC0, 0x00, 0x11, 0x08,
      word_of_int (uint (push_bit 3 h) div 256), word_of_int (uint (push_bit 3 h)),
      word_of_int (uint (push_bit 3 w) div 256), word_of_int (uint (push_bit 3 w)),
      3,
      1, (if type \<noteq> 0 then 0x22 else 0x21), 0,
      2, 0x11, (if nb_qtable = 2 then 1 else 0),
      3, 0x11, (if nb_qtable = 2 then 1 else 0)]"

definition sos_segment :: "u8 list" where
  "sos_segment = [0xFF, 0xDA, 0x00, 0x0C, 3, 1, 0, 2, 17, 3, 17, 0, 63, 0]"

text \<open>
  The value of a 16-bit big-endian field from its two bytes, and the position of the
  SOF0 marker: after SOI and APP0 (20 bytes), the optional DRI segment (6 bytes), the
  DQT segment (4 bytes and 65 per table) and the DHT segment (4 bytes and the four
  tables, 416 bytes).
\<close>

definition be16_value :: "u8 \<Rightarrow> u8 \<Rightarrow> int" where
  "be16_value hi lo = uint hi * 256 + uint lo"

definition sof0_offset :: "int \<Rightarrow> int \<Rightarrow> nat" where
  "sof0_offset nb_qtable dri =
     20 + (if dri \<noteq> 0 then 6 else 0) + (4 + 65 * nat nb_qtable) + (4 + 416)"

text \<open>
  A small table for the examples: two codes of length 2 and one of length 3, with symbol 0
  at the first two positions of the value table.
\<close>

definition example_bits_table :: "u8 list" where
  "example_bits_table = [0, 0, 2, 1, 0, 0, 0, 0, 0, 0, 0, 0, 0, 0, 0, 0, 0]"

definition example_val_table :: "u8 list" where
  "example_val_table = [0, 0, 5]"

section \<open>Properties of the quantization-table synthesizer\<close>

lemma qtables_loop_length:
  "i \<le> 128 \<Longrightarrow> length (qtables_loop dq S i qt) = length qt + (128 - i)"
proof (induction dq S i qt rule: qtables_loop.induct)
  case (1 dq S i qt)
  show ?case
  proof (cases "i < 128")
    case True
    with 1 show ?thesis
      by (subst qtables_loop.simps) (simp add: Let_def)
  next
    case False
    with 1 show ?thesis
      by (subst qtables_loop.simps) simp
  qed
qed

lemma qtables_loop_nth_old:
  "j < length qt \<Longrightarrow> qtables_loop dq S i qt ! j = qt ! j"
proof (induction dq S i qt rule: qtables_loop.induct)
  case (1 dq S i qt)
  show ?case
  proof (cases "i < 128")
    case True
    with 1 show ?thesis
      by (subst qtables_loop.simps) (simp add: Let_def nth_append)
  next
    case False
    then show ?thesis
      by (subst qtables_loop.simps) simp
  qed
qed

lemma qtables_loop_nth_new:
  "length qt = i \<Longrightarrow> i \<le> j \<Longrightarrow> j < 128 \<Longrightarrow>
   qtables_loop dq S i qt ! j =
     word_of_int (av_clip ((uint (dq ! j) * uint S + 50) div 100) 1 255)"
proof (induction dq S i qt arbitrary: rule: qtables_loop.induct)
  case (1 dq S i qt)
  from 1(2,3,4) have lt: "i < 128" by simp
  show ?case
  proof (cases "i = j")
    case True
    have "qtables_loop dq S i qt ! j =
          qtables_loop dq S (i + 1)
            (qt @ [word_of_int (av_clip ((uint (dq ! i) * uint S + 50) div 100) 1 255)]) ! j"
      using lt by (subst qtables_loop.simps) (simp add: Let_def)
    also have "\<dots> = (qt @ [word_of_int (av_clip ((uint (dq ! i) * uint S + 50) div 100) 1 255)]) ! j"
      using True 1(2) by (intro qtables_loop_nth_old) simp
    finally show ?thesis using True 1(2) by (simp add: nth_append)
  next
    case False
    with 1(3) have "i + 1 \<le> j" by simp
    with 1 lt show ?thesis
      by (subst qtables_loop.simps) (simp add: Let_def)
  qed
qed

lemma scale_factor_spec:
  "uint (scale_factor q) = spec_scale (spec_quality (uint q))"
proof -
  have q0: "0 \<le> uint q" by simp
  have fac: "av_clip (uint q) 1 99 = spec_quality (uint q)"
    by (simp add: av_clip_def spec_quality_def)
  have rng: "1 \<le> spec_quality (uint q)" "spec_quality (uint q) \<le> 99"
    by (simp_all add: spec_quality_def)
  have br: "(uint q < 50) = (spec_quality (uint q) < 50)"
    by (auto simp: spec_quality_def)
  have lo: "0 \<le> spec_scale (spec_quality (uint q))"
    using rng by (simp add: spec_scale_def pos_imp_zdiv_nonneg_iff)
  have "5000 div spec_quality (uint q) \<le> 5000 div 1"
    using rng by (intro zdiv_mono2) simp_all
  then have hi: "spec_scale (spec_quality (uint q)) < 65536"
    using rng by (simp add: spec_scale_def)
  have "scale_factor q = word_of_int (spec_scale (spec_quality (uint q)))"
    by (simp add: scale_factor_def Let_def fac br spec_scale_def mult.commute)
  then show ?thesis
    using lo hi by (simp add: uint_word_of_int take_bit_int_eq_self)
qed

lemma spec_entry_range: "1 \<le> spec_entry b S \<and> spec_entry b S \<le> 255"
  by (simp add: spec_entry_def)

lemma av_clip_spec_entry: "av_clip ((b * S + 50) div 100) 1 255 = spec_entry b S"
  by (simp add: av_clip_def spec_entry_def)

text \<open>
  C1. For every quality byte \<open>q\<close> and every 128-entry base table, the synthesizer
  writes 128 entries; entry \<open>i\<close> is \<open>(base\<^sub>i * S + 50) div 100\<close> clamped to
  \<open>[1,255]\<close>, where \<open>S\<close> is the spec's scale factor of the quality clamped to
  \<open>[1,99]\<close> (\<open>5000 div quality\<close> below 50, \<open>200 - 2 * quality\<close> otherwise); every entry
  lies in \<open>[1,255]\<close>; quality 50 gives \<open>S = 100\<close> and quality 1 gives \<open>S = 5000\<close>.
\<close>

theorem create_default_qtables_spec:
  assumes "length default_quantizers = 128"
  shows "length (create_default_qtables default_quantizers q) = 128
       \<and> (\<forall>i<128. uint (create_default_qtables default_quantizers q ! i) =
             spec_entry (uint (default_quantizers ! i)) (spec_scale (spec_quality (uint q)))
           \<and> 1 \<le> uint (create_default_qtables default_quantizers q ! i)
           \<and> uint (create_default_qtables default_quantizers q ! i) \<le> 255)
       \<and> uint (scale_factor q) = spec_scale (spec_quality (uint q))
       \<and> uint (scale_factor 50) = 100 \<and> uint (scale_factor 1) = 5000"
proof -
  let ?S = "spec_scale (spec_quality (uint q))"
  have len: "length (create_default_qtables default_quantizers q) = 128"
    by (simp add: create_default_qtables_def qtables_loop_length)
  have ent: "uint (create_default_qtables default_quantizers q ! i) =
             spec_entry (uint (default_quantizers ! i)) ?S" if "i < 128" for i
  proof -
    have "create_default_qtables default_quantizers q ! i =
          word_of_int (spec_entry (uint (default_quantizers ! i)) ?S)"
      using that
      by (simp add: create_default_qtables_def qtables_loop_nth_new
            scale_factor_spec av_clip_spec_entry)
    moreover have "0 \<le> spec_entry (uint (default_quantizers ! i)) ?S"
      "spec_entry (uint (default_quantizers ! i)) ?S < 256"
      using spec_entry_range [of "uint (default_quantizers ! i)" ?S] by simp_all
    ultimately show ?thesis
      by (simp add: uint_word_of_int take_bit_int_eq_self)
  qed
  have s50: "uint (scale_factor 50) = 100"
    by (simp add: scale_factor_spec spec_scale_def spec_quality_def)
  have s1: "uint (scale_factor 1) = 5000"
    by (simp add: scale_factor_spec spec_scale_def spec_quality_def)
  show ?thesis
    using len ent spec_entry_range scale_factor_spec s50 s1 by simp
qed

theorem create_default_qtables_spec_witness:
  "length (replicate 128 (16 :: u8)) = 128
   \<and> length (create_default_qtables (replicate 128 16) 1) = 128
   \<and> uint (create_default_qtables (replicate 128 16) 1 ! 5) = 255
   \<and> uint (create_default_qtables (replicate 128 16) 75 ! 127) = 8"
proof -
  have h: "length (replicate 128 (16 :: u8)) = 128" by simp
  have a: "uint (create_default_qtables (replicate 128 16) 1 ! 5) = 255"
    using create_default_qtables_spec [OF h, of 1]
    by (simp add: spec_entry_def spec_scale_def spec_quality_def)
  have b: "uint (create_default_qtables (replicate 128 16) 75 ! 127) = 8"
    using create_default_qtables_spec [OF h, of 75]
    by (simp add: spec_entry_def spec_scale_def spec_quality_def)
  show ?thesis
    using h a b create_default_qtables_spec [OF h, of 1] by simp
qed

section \<open>Properties of the RTP header codec\<close>


lemma masks32:
  "(0xc0 :: u32) = push_bit 6 (mask 2)" "(0x20 :: u32) = push_bit 5 (mask 1)"
  "(0x10 :: u32) = push_bit 4 (mask 1)" "(0x0f :: u32) = mask 4"
  "(0x03 :: u32) = mask 2" "(1 :: u32) = mask 1" "(0x80 :: u32) = push_bit 7 (mask 1)"
  "(0x7f :: u32) = mask 7"
  by (simp_all add: mask_eq_exp_minus_1)

lemma bit_pow2_numerals:
  "bit (32::'a::semiring_bits) n = (possible_bit TYPE('a) n \<and> n = 5)"
  "bit (16::'a::semiring_bits) n = (possible_bit TYPE('a) n \<and> n = 4)"
  "bit (128::'a::semiring_bits) n = (possible_bit TYPE('a) n \<and> n = 7)"
  using bit_exp_iff [where ?'a = "'a", of 5 n] bit_exp_iff [where ?'a = "'a", of 4 n]
    bit_exp_iff [where ?'a = "'a", of 7 n]
  by simp_all

lemma byte0_version: "(ucast (drop_bit 6 (ucast (rtp_byte0 v p x c) :: u32) AND 3) :: u8) = v AND 3"
proof -
  have "(ucast (drop_bit 6 (ucast (rtp_byte0 v p x c) :: u32) AND 3) :: u8) = v AND mask 2"
  unfolding rtp_byte0_def masks32
    by (rule bit_word_eqI) (auto simp add: bit_simps bit_pow2_numerals)
  then show ?thesis by (simp add: mask_eq_exp_minus_1)
qed

lemma byte0_padding: "(ucast (drop_bit 5 (ucast (rtp_byte0 v p x c) :: u32) AND 1) :: u8) = p AND 1"
proof -
  have "(ucast (drop_bit 5 (ucast (rtp_byte0 v p x c) :: u32) AND 1) :: u8) = p AND mask 1"
  unfolding rtp_byte0_def masks32
    by (rule bit_word_eqI) (auto simp add: bit_simps bit_pow2_numerals)
  then show ?thesis by (simp add: mask_eq_exp_minus_1)
qed

lemma byte0_extension: "(ucast (drop_bit 4 (ucast (rtp_byte0 v p x c) :: u32) AND 1) :: u8) = x AND 1"
proof -
  have "(ucast (drop_bit 4 (ucast (rtp_byte0 v p x c) :: u32) AND 1) :: u8) = x AND mask 1"
  unfolding rtp_byte0_def masks32
    by (rule bit_word_eqI) (auto simp add: bit_simps bit_pow2_numerals)
  then show ?thesis by (simp add: mask_eq_exp_minus_1)
qed

lemma byte0_csrc: "(ucast ((ucast (rtp_byte0 v p x c) :: u32) AND 15) :: u8) = c AND 15"
proof -
  have "(ucast ((ucast (rtp_byte0 v p x c) :: u32) AND 15) :: u8) = c AND mask 4"
  unfolding rtp_byte0_def masks32
    by (rule bit_word_eqI) (auto simp add: bit_simps bit_pow2_numerals)
  then show ?thesis by (simp add: mask_eq_exp_minus_1)
qed

lemma byte1_marker: "(ucast (drop_bit 7 (ucast (rtp_byte1 m pt) :: u32) AND 1) :: u8) = m AND 1"
proof -
  have "(ucast (drop_bit 7 (ucast (rtp_byte1 m pt) :: u32) AND 1) :: u8) = m AND mask 1"
  unfolding rtp_byte1_def masks32
    by (rule bit_word_eqI) (auto simp add: bit_simps bit_pow2_numerals)
  then show ?thesis by (simp add: mask_eq_exp_minus_1)
qed

lemma byte1_payload: "(ucast ((ucast (rtp_byte1 m pt) :: u32) AND 0x7f) :: u16) = pt AND 127"
proof -
  have "(ucast ((ucast (rtp_byte1 m pt) :: u32) AND 0x7f) :: u16) = pt AND mask 7"
  unfolding rtp_byte1_def masks32
    by (rule bit_word_eqI) (auto simp add: bit_simps bit_pow2_numerals)
  then show ?thesis by (simp add: mask_eq_exp_minus_1)
qed

lemma be16: "push_bit 8 (ucast (ucast (drop_bit 8 v)::u8)) OR ucast (ucast v :: u8) = (v::u16)"
  by (rule bit_word_eqI) (auto simp add: bit_simps)

lemma be32: "push_bit 24 (ucast (ucast (drop_bit 24 v) :: u8)) OR
        push_bit 16 (ucast (ucast (drop_bit 16 v) :: u8)) OR
        push_bit 8 (ucast (ucast (drop_bit 8 v) :: u8)) OR ucast (ucast v :: u8) = (v :: u32)"
proof (rule bit_word_eqI)
  fix n :: nat assume "n < LENGTH(32)"
  consider "n < 8" | "8 \<le> n" "n < 16" | "16 \<le> n" "n < 24" | "24 \<le> n" by linarith
  then show "bit (push_bit 24 (ucast (ucast (drop_bit 24 v) :: u8)) OR
        push_bit 16 (ucast (ucast (drop_bit 16 v) :: u8)) OR
        push_bit 8 (ucast (ucast (drop_bit 8 v) :: u8)) OR ucast (ucast v :: u8) :: u32) n = bit v n"
    using \<open>n < LENGTH(32)\<close> by cases (auto simp: bit_simps)
qed

lemma Serialise_bytes:
  "RtpHeader_Serialise h buf = buf @
     [rtp_byte0 (Version h) (PaddingFlag h) (HeaderExtensionFlag h) (CSRCCount h),
      rtp_byte1 (MarkerBit h) (PayloadType h),
      ucast (drop_bit 8 (SeqNum h)), ucast (SeqNum h),
      ucast (drop_bit 24 (Timestamp h)), ucast (drop_bit 16 (Timestamp h)),
      ucast (drop_bit 8 (Timestamp h)), ucast (Timestamp h),
      ucast (drop_bit 24 (SyncSource h)), ucast (drop_bit 16 (SyncSource h)),
      ucast (drop_bit 8 (SyncSource h)), ucast (SyncSource h)]"
  by (simp add: RtpHeader_Serialise_def Let_def write_16_def write_32_def rtp_byte0_def rtp_byte1_def)

lemma nth_after: "(buf @ xs) ! nat (int (length buf) + i) = xs ! nat i" if "0 \<le> i"
  using that by (simp add: nth_append nat_add_distrib)

lemma roundtrip_general:
  "RtpHeader_Deserialise h0 (RtpHeader_Serialise h buf) (int (length buf)) =
     Returned (h0\<lparr>Version := Version h AND 3, PaddingFlag := PaddingFlag h AND 1,
        HeaderExtensionFlag := HeaderExtensionFlag h AND 1, CSRCCount := CSRCCount h AND 15,
        MarkerBit := MarkerBit h AND 1, PayloadType := PayloadType h AND 127,
        SeqNum := SeqNum h, Timestamp := Timestamp h, SyncSource := SyncSource h\<rparr>)"
  unfolding Serialise_bytes
  apply (simp add: RtpHeader_Deserialise_def size_t_def RTP_MINIMUM_HEADER_LENGTH_def Let_def
     read_16_def read_32_def nth_after add.assoc
     byte0_version byte0_padding byte0_extension byte0_csrc byte1_marker byte1_payload be16 be32)
  done

lemma RtpHeader_all_fields:
  "h0\<lparr>Version := Version h, PaddingFlag := PaddingFlag h,
        HeaderExtensionFlag := HeaderExtensionFlag h, CSRCCount := CSRCCount h,
        MarkerBit := MarkerBit h, PayloadType := PayloadType h,
        SeqNum := SeqNum h, Timestamp := Timestamp h, SyncSource := SyncSource h\<rparr> = (h :: RtpHeader)"
  by (cases h, cases h0) simp

lemma within_mask:
  "(v :: u8) < 4 \<Longrightarrow> v AND 3 = v" "(p :: u8) < 2 \<Longrightarrow> p AND 1 = p"
  "(c :: u8) < 16 \<Longrightarrow> c AND 15 = c" "(pt :: u16) < 128 \<Longrightarrow> pt AND 127 = pt"
  using less_mask_eq [of v 2] less_mask_eq [of p 1] less_mask_eq [of c 4] less_mask_eq [of pt 7]
  by (simp_all add: mask_eq_exp_minus_1)

text \<open>
  C4 (as amended). For every header whose fields, the version included, are within their
  declared bit widths, \<open>Deserialise\<close> applied to the output of \<open>Serialise\<close> (appended to
  any buffer, read from where it starts) returns that header, whatever the object held
  before; the version bits of the first byte written are the header's own \<open>Version\<close>
  field, not a forced 2: they are 2 for a header that keeps its initial \<open>Version\<close>.
\<close>

theorem Serialise_Deserialise_roundtrip:
  assumes "fields_within_widths h"
  shows "RtpHeader_Deserialise h0 (RtpHeader_Serialise h buf) (int (length buf)) = Returned h
       \<and> version_bits (RtpHeader_Serialise h buf ! length buf) = Version h
       \<and> version_bits (RtpHeader_Serialise new_RtpHeader buf ! length buf) = 2"
proof -
  have m: "Version h AND 3 = Version h" "PaddingFlag h AND 1 = PaddingFlag h"
    "HeaderExtensionFlag h AND 1 = HeaderExtensionFlag h" "CSRCCount h AND 15 = CSRCCount h"
    "MarkerBit h AND 1 = MarkerBit h" "PayloadType h AND 127 = PayloadType h"
    using assms by (simp_all add: fields_within_widths_def within_mask)
  have rt: "RtpHeader_Deserialise h0 (RtpHeader_Serialise h buf) (int (length buf)) = Returned h"
    by (simp only: roundtrip_general m RtpHeader_all_fields)
  have "version_bits (rtp_byte0 (Version h) (PaddingFlag h) (HeaderExtensionFlag h) (CSRCCount h))
          = Version h AND mask 2"
    unfolding rtp_byte0_def masks32 version_bits_def
    by (rule bit_word_eqI) (auto simp add: bit_simps bit_pow2_numerals)
  then have "version_bits (rtp_byte0 (Version h) (PaddingFlag h) (HeaderExtensionFlag h) (CSRCCount h))
          = Version h AND 3"
    by (simp add: mask_eq_exp_minus_1)
  then have vb: "version_bits (RtpHeader_Serialise h buf ! length buf) = Version h"
    by (simp add: Serialise_bytes m)
  have dv: "version_bits (RtpHeader_Serialise new_RtpHeader buf ! length buf) = 2"
    by (simp add: Serialise_bytes new_RtpHeader_def RTP_VERSION_def rtp_byte0_def version_bits_def)
  show ?thesis using rt vb dv by simp
qed

text \<open>
  The round trip at a header with \<open>Version = 1\<close>, serialised after two bytes that are
  already in the buffer.
\<close>

theorem Serialise_Deserialise_roundtrip_witness:
  "fields_within_widths example_RtpHeader
   \<and> RtpHeader_Deserialise example_RtpHeader (RtpHeader_Serialise example_RtpHeader [7, 7])
         (int (length [7, 7 :: u8])) = Returned example_RtpHeader
   \<and> version_bits (RtpHeader_Serialise example_RtpHeader [7, 7] ! length [7, 7 :: u8])
         = Version example_RtpHeader"
proof -
  have h: "fields_within_widths example_RtpHeader"
    by (simp add: fields_within_widths_def example_RtpHeader_def)
  show ?thesis
    using h Serialise_Deserialise_roundtrip [OF h, of example_RtpHeader "[7, 7]"]
    by simp
qed

text \<open>
  C4 as stated fails: the claim has \<open>Serialise\<close> write version 2 regardless of the
  field, but a header with \<open>Version = 1\<close> is written with version bits 1.
\<close>

theorem Serialise_version_not_forced:
  "fields_within_widths example_RtpHeader
   \<and> version_bits (hd (RtpHeader_Serialise example_RtpHeader [])) = 1
   \<and> version_bits (hd (RtpHeader_Serialise example_RtpHeader [])) \<noteq> 2"
  by (simp add: fields_within_widths_def example_RtpHeader_def RtpHeader_Serialise_def
        version_bits_def write_16_def write_32_def)



section \<open>Properties of the JPEG payload header parser\<close>

lemmas jpeg_consts = JPEG_MIN_HEADER_LENGTH_def JPEG_DEFAULT_TYPE_SPECIFIER_def
  JPEG_TYPE_RESTART_MARKER_START_def JPEG_TYPE_RESTART_MARKER_END_def
  JPEG_QUANTIZATION_HEADER_LENGTH_def Q_TABLE_INBAND_MINIMUM_def

lemmas error_kinds = UnsupportedTypeSpecifier_def UnsupportedRestartMarkers_def
  JpegTruncatedBuffer_def TruncatedQuantizationHeader_def TruncatedQuantizationTable_def

lemma size_t_id: "0 \<le> x \<Longrightarrow> x < 2 ^ 64 \<Longrightarrow> size_t x = x"
  by (simp add: size_t_def)

lemma size_t_small [simp]: "size_t 4 = 4" "size_t 8 = 8" "size_t 12 = 12"
  by (simp_all add: size_t_def)

lemma size_t_uint16 [simp]: "size_t (uint (w :: u16)) = uint w"
proof -
  have "uint w < 2 ^ 16" using uint_bounded [of w] by simp
  then have "uint w < 2 ^ 64" by simp
  then show ?thesis by (simp add: size_t_id)
qed

lemma jpeg_too_short:
  "size_t (int (length buffer) - startPosn) < 8 \<Longrightarrow>
   JpegRtpHeader_Deserialise this buffer startPosn = Thrown JpegTruncatedBuffer this"
  by (simp add: JpegRtpHeader_Deserialise_def jpeg_consts error_kinds)

lemma Deserialise_unfold:
  "JpegRtpHeader_Deserialise this buffer startPosn =
     (if size_t (int (length buffer) - startPosn) < 8 then Thrown JpegTruncatedBuffer this
      else if startPosn < 0 \<or> int (length buffer) < startPosn + 8 then OutOfBounds
      else
        (let b = base_fields this buffer startPosn in
         if uint (TypeSpecifier b) \<noteq> 0 then Thrown UnsupportedTypeSpecifier b
         else if uint (Type b) \<ge> 64 \<and> uint (Type b) \<le> 127 then Thrown UnsupportedRestartMarkers b
         else if Offset b = 0 \<and> uint (Q b) \<ge> 128 then
           (if size_t (int (length buffer) - startPosn - 8) < 4 then Thrown TruncatedQuantizationHeader b
            else if int (length buffer) < startPosn + 12 then OutOfBounds
            else
              (let e = quantization_fields b buffer startPosn in
               if Length e > 0 then
                 (if size_t (int (length buffer) - startPosn - 8 - 4) < uint (Length e) then
                    Thrown TruncatedQuantizationTable e
                  else if int (length buffer) < startPosn + 12 + uint (Length e) then OutOfBounds
                  else Returned (e\<lparr>QTable := QTable e @
                         take (unat (Length e)) (drop (nat (startPosn + 8 + 4)) buffer)\<rparr>))
               else Returned e))
         else Returned b))"
  by (simp add: JpegRtpHeader_Deserialise_def base_fields_def quantization_fields_def Let_def
        jpeg_consts error_kinds)

lemma QTable_quantization_fields [simp]:
  "QTable (quantization_fields (base_fields this buffer s) buffer s) = QTable this"
  by (simp add: quantization_fields_def base_fields_def)

lemma jpeg_paths:
  assumes ib: "0 \<le> startPosn" "startPosn + 8 \<le> int (length buffer)" "length buffer < 2 ^ 64"
  shows "JpegRtpHeader_Deserialise this buffer startPosn =
     (let b = base_fields this buffer startPosn;
          e = quantization_fields b buffer startPosn;
          avail = int (length buffer) - startPosn
      in
      if TypeSpecifier b \<noteq> 0 then Thrown UnsupportedTypeSpecifier b
      else if 64 \<le> Type b \<and> Type b \<le> 127 then Thrown UnsupportedRestartMarkers b
      else if Offset b = 0 \<and> 128 \<le> Q b then
        (if avail - 8 < 4 then Thrown TruncatedQuantizationHeader b
         else if 0 < Length e \<and> avail - 12 < uint (Length e) then Thrown TruncatedQuantizationTable e
         else Returned (e\<lparr>QTable := QTable this @
                  take (unat (Length e)) (drop (nat (startPosn + 12)) buffer)\<rparr>))
      else Returned b)"
proof -
  define b where "b = base_fields this buffer startPosn"
  define e where "e = quantization_fields b buffer startPosn"
  define avail where "avail = int (length buffer) - startPosn"
  have a: "size_t (int (length buffer) - startPosn) = avail"
    using ib unfolding avail_def by (intro size_t_id) simp_all
  have a8: "size_t (int (length buffer) - startPosn - 8) = avail - 8"
    using ib unfolding avail_def by (intro size_t_id) simp_all
  have a12: "size_t (int (length buffer) - startPosn - 8 - 4) = avail - 12" if "\<not> avail - 8 < 4"
    using ib that unfolding avail_def by (subst size_t_id) simp_all
  have ge: "\<not> avail < 8" using ib by (simp add: avail_def)
  have nob: "\<not> (startPosn < 0 \<or> int (length buffer) < startPosn + 8)" using ib by simp
  have qt: "QTable e = QTable this"
    by (simp add: e_def b_def)
  have ts: "(uint (TypeSpecifier b) \<noteq> 0) = (TypeSpecifier b \<noteq> 0)"
    by (simp add: uint_0_iff)
  have ty: "(64 \<le> uint (Type b) \<and> uint (Type b) \<le> 127) = (64 \<le> Type b \<and> Type b \<le> 127)"
    by (simp add: word_le_def)
  have qq: "(128 \<le> uint (Q b)) = (128 \<le> Q b)"
    by (simp add: word_le_def)
  have e0: "e\<lparr>QTable := QTable this @ take (unat (Length e)) (drop (nat (startPosn + 12)) buffer)\<rparr> = e"
    if "\<not> 0 < Length e"
  proof -
    from that have "Length e = 0" by (simp add: word_greater_zero_iff)
    then show ?thesis using qt by simp
  qed
  have unf: "JpegRtpHeader_Deserialise this buffer startPosn =
       (if TypeSpecifier b \<noteq> 0 then Thrown UnsupportedTypeSpecifier b
         else if 64 \<le> Type b \<and> Type b \<le> 127 then Thrown UnsupportedRestartMarkers b
         else if Offset b = 0 \<and> 128 \<le> Q b then
           (if avail - 8 < 4 then Thrown TruncatedQuantizationHeader b
            else if int (length buffer) < startPosn + 12 then OutOfBounds
            else
               if Length e > 0 then
                 (if size_t (int (length buffer) - startPosn - 8 - 4) < uint (Length e) then
                    Thrown TruncatedQuantizationTable e
                  else if int (length buffer) < startPosn + 12 + uint (Length e) then OutOfBounds
                  else Returned (e\<lparr>QTable := QTable this @
                         take (unat (Length e)) (drop (nat (startPosn + 8 + 4)) buffer)\<rparr>))
               else Returned e)
         else Returned b)"
    unfolding Deserialise_unfold [of this buffer startPosn] Let_def b_def [symmetric] e_def [symmetric]
      a a8 ts ty qq qt
    using ge nob by simp
  have fin: "JpegRtpHeader_Deserialise this buffer startPosn =
      (if TypeSpecifier b \<noteq> 0 then Thrown UnsupportedTypeSpecifier b
      else if 64 \<le> Type b \<and> Type b \<le> 127 then Thrown UnsupportedRestartMarkers b
      else if Offset b = 0 \<and> 128 \<le> Q b then
        (if avail - 8 < 4 then Thrown TruncatedQuantizationHeader b
         else if 0 < Length e \<and> avail - 12 < uint (Length e) then Thrown TruncatedQuantizationTable e
         else Returned (e\<lparr>QTable := QTable this @
                  take (unat (Length e)) (drop (nat (startPosn + 12)) buffer)\<rparr>))
      else Returned b)"
  proof (cases "avail - 8 < 4")
    case True
    then show ?thesis
      unfolding unf by simp
  next
    case False
    then have ib12: "\<not> int (length buffer) < startPosn + 12" by (simp add: avail_def)
    have oob: "\<not> int (length buffer) < startPosn + 12 + uint (Length e)"
      if "\<not> avail - 12 < uint (Length e)"
      using that by (simp add: avail_def)
    have p: "startPosn + 8 + 4 = startPosn + 12" by simp
    show ?thesis
      unfolding unf a12 [OF False] p using False ib12 oob e0
      by (simp only: if_False if_True simp_thms split: if_splits) auto
  qed
  show ?thesis
    unfolding Let_def b_def [symmetric] e_def [symmetric] avail_def [symmetric] by (rule fin)
qed




lemma base_fields_simps [simp]:
  "TypeSpecifier (base_fields this buffer s) = buffer ! nat s"
  "Offset (base_fields this buffer s) = read_24 buffer (s + 1)"
  "Type (base_fields this buffer s) = buffer ! nat (s + 4)"
  "Q (base_fields this buffer s) = buffer ! nat (s + 5)"
  "Width (base_fields this buffer s) = buffer ! nat (s + 6)"
  "Height (base_fields this buffer s) = buffer ! nat (s + 7)"
  "Mbz (base_fields this buffer s) = Mbz this"
  "Precision (base_fields this buffer s) = Precision this"
  "Length (base_fields this buffer s) = Length this"
  "QTable (base_fields this buffer s) = QTable this"
  by (simp_all add: base_fields_def)

lemma quantization_fields_simps [simp]:
  "Mbz (quantization_fields b buffer s) = buffer ! nat (s + 8)"
  "Precision (quantization_fields b buffer s) = buffer ! nat (s + 9)"
  "Length (quantization_fields b buffer s) = read_16 buffer (s + 10)"
  "QTable (quantization_fields b buffer s) = QTable b"
  "TypeSpecifier (quantization_fields b buffer s) = TypeSpecifier b"
  "Offset (quantization_fields b buffer s) = Offset b"
  "Type (quantization_fields b buffer s) = Type b"
  "Q (quantization_fields b buffer s) = Q b"
  "Width (quantization_fields b buffer s) = Width b"
  "Height (quantization_fields b buffer s) = Height b"
  by (simp_all add: quantization_fields_def)

lemma error_kinds_distinct:
  "UnsupportedTypeSpecifier \<noteq> UnsupportedRestartMarkers"
  "UnsupportedTypeSpecifier \<noteq> TruncatedQuantizationHeader"
  "UnsupportedTypeSpecifier \<noteq> TruncatedQuantizationTable"
  "UnsupportedRestartMarkers \<noteq> TruncatedQuantizationHeader"
  "UnsupportedRestartMarkers \<noteq> TruncatedQuantizationTable"
  "TruncatedQuantizationHeader \<noteq> TruncatedQuantizationTable"
  "JpegTruncatedBuffer \<noteq> TruncatedQuantizationTable"
  "UnsupportedRestartMarkers \<noteq> UnsupportedTypeSpecifier"
  "TruncatedQuantizationHeader \<noteq> UnsupportedTypeSpecifier"
  "TruncatedQuantizationTable \<noteq> UnsupportedTypeSpecifier"
  "TruncatedQuantizationHeader \<noteq> UnsupportedRestartMarkers"
  "TruncatedQuantizationTable \<noteq> UnsupportedRestartMarkers"
  "TruncatedQuantizationTable \<noteq> TruncatedQuantizationHeader"
  "TruncatedQuantizationTable \<noteq> JpegTruncatedBuffer"
  by (simp_all add: error_kinds)

text \<open>
  C6. With at least 8 bytes from \<open>startPosn\<close>: a type-specific byte (byte 0) other than
  0 raises \<open>UnsupportedTypeSpecifier\<close>; otherwise a type byte (byte 4) in \<open>[64,127]\<close>
  raises \<open>UnsupportedRestartMarkers\<close>; with byte 0 equal to 0 and the type byte outside
  \<open>[64,127]\<close> neither error is raised (and no read leaves the buffer).
\<close>

theorem Deserialise_unsupported_checks:
  assumes "0 \<le> startPosn" "startPosn + 8 \<le> int (length buffer)" "length buffer < 2 ^ 64"
  shows "(buffer ! nat startPosn \<noteq> 0 \<longrightarrow>
            thrown (JpegRtpHeader_Deserialise this buffer startPosn) = Some UnsupportedTypeSpecifier)
       \<and> (buffer ! nat startPosn = 0 \<and> 64 \<le> buffer ! nat (startPosn + 4)
            \<and> buffer ! nat (startPosn + 4) \<le> 127 \<longrightarrow>
            thrown (JpegRtpHeader_Deserialise this buffer startPosn) = Some UnsupportedRestartMarkers)
       \<and> (buffer ! nat startPosn = 0 \<and> \<not> (64 \<le> buffer ! nat (startPosn + 4)
            \<and> buffer ! nat (startPosn + 4) \<le> 127) \<longrightarrow>
            thrown (JpegRtpHeader_Deserialise this buffer startPosn) \<noteq> Some UnsupportedTypeSpecifier
          \<and> thrown (JpegRtpHeader_Deserialise this buffer startPosn) \<noteq> Some UnsupportedRestartMarkers
          \<and> JpegRtpHeader_Deserialise this buffer startPosn \<noteq> OutOfBounds)"
  unfolding jpeg_paths [OF assms] Let_def
  by (simp add: error_kinds_distinct)

text \<open>
  The three cases on 8-byte buffers: type 64 with specifier 0, specifier 1, and type
  63 with specifier 0.
\<close>

theorem Deserialise_unsupported_checks_witness:
  "thrown (JpegRtpHeader_Deserialise fresh_JpegRtpHeader [0, 0, 0, 0, 64, 0, 0, 0] 0)
     = Some UnsupportedRestartMarkers
   \<and> thrown (JpegRtpHeader_Deserialise fresh_JpegRtpHeader [1, 0, 0, 0, 64, 0, 0, 0] 0)
     = Some UnsupportedTypeSpecifier
   \<and> thrown (JpegRtpHeader_Deserialise fresh_JpegRtpHeader [0, 0, 0, 0, 63, 0, 0, 0] 0)
     \<noteq> Some UnsupportedRestartMarkers"
  using Deserialise_unsupported_checks [of 0 "[0, 0, 0, 0, 64, 0, 0, 0]" fresh_JpegRtpHeader]
    Deserialise_unsupported_checks [of 0 "[1, 0, 0, 0, 64, 0, 0, 0]" fresh_JpegRtpHeader]
    Deserialise_unsupported_checks [of 0 "[0, 0, 0, 0, 63, 0, 0, 0]" fresh_JpegRtpHeader]
  by simp


text \<open>
  C5. With at least 8 bytes from \<open>startPosn\<close> and both checks passed: when the fragment
  offset is not 0 or \<open>Q < 128\<close>, the parser returns the object with only the six base
  fields assigned (\<open>Mbz\<close>, \<open>Precision\<close>, \<open>Length\<close>, \<open>QTable\<close> as before), and the result is
  the same when the bytes after the 8-byte header are cut off. When the offset is 0 and
  \<open>Q \<ge> 128\<close>, the extension is parsed, and the outcome is fixed in each case: fewer than
  4 further bytes throw the truncated-header error; a \<open>Length\<close> above 0 with fewer than
  \<open>Length\<close> bytes after the extension header throws the truncated-table error; and when
  the 4 bytes and the \<open>Length\<close> table bytes are present the parser returns the object
  with \<open>Mbz\<close>, \<open>Precision\<close> and \<open>Length\<close> read from bytes 8 to 11 and exactly \<open>Length\<close>
  table bytes appended to \<open>QTable\<close>.
\<close>

theorem Deserialise_extension_iff:
  assumes "0 \<le> startPosn" "startPosn + 8 \<le> int (length buffer)" "length buffer < 2 ^ 64"
    and "buffer ! nat startPosn = 0"
    and "\<not> (64 \<le> buffer ! nat (startPosn + 4) \<and> buffer ! nat (startPosn + 4) \<le> 127)"
  shows "(read_24 buffer (startPosn + 1) \<noteq> 0 \<or> buffer ! nat (startPosn + 5) < 128 \<longrightarrow>
            JpegRtpHeader_Deserialise this buffer startPosn
              = Returned (base_fields this buffer startPosn)
          \<and> JpegRtpHeader_Deserialise this (take (nat startPosn + 8) buffer) startPosn
              = JpegRtpHeader_Deserialise this buffer startPosn
          \<and> Mbz (base_fields this buffer startPosn) = Mbz this
          \<and> Precision (base_fields this buffer startPosn) = Precision this
          \<and> Length (base_fields this buffer startPosn) = Length this
          \<and> QTable (base_fields this buffer startPosn) = QTable this)
       \<and> (read_24 buffer (startPosn + 1) = 0 \<and> 128 \<le> buffer ! nat (startPosn + 5) \<longrightarrow>
            (int (length buffer) - startPosn - 8 < 4 \<longrightarrow>
               JpegRtpHeader_Deserialise this buffer startPosn
                 = Thrown TruncatedQuantizationHeader (base_fields this buffer startPosn))
          \<and> (4 \<le> int (length buffer) - startPosn - 8
               \<and> 0 < read_16 buffer (startPosn + 10)
               \<and> int (length buffer) - startPosn - 12 < uint (read_16 buffer (startPosn + 10)) \<longrightarrow>
               JpegRtpHeader_Deserialise this buffer startPosn
                 = Thrown TruncatedQuantizationTable
                     (quantization_fields (base_fields this buffer startPosn) buffer startPosn))
          \<and> (4 \<le> int (length buffer) - startPosn - 8
               \<and> uint (read_16 buffer (startPosn + 10)) \<le> int (length buffer) - startPosn - 12 \<longrightarrow>
               JpegRtpHeader_Deserialise this buffer startPosn
                 = Returned
                     ((quantization_fields (base_fields this buffer startPosn) buffer startPosn)
                        \<lparr>QTable := QTable this @
                           take (unat (read_16 buffer (startPosn + 10)))
                             (drop (nat (startPosn + 12)) buffer)\<rparr>)
             \<and> length (take (unat (read_16 buffer (startPosn + 10)))
                         (drop (nat (startPosn + 12)) buffer))
                 = unat (read_16 buffer (startPosn + 10)))
          \<and> Mbz (quantization_fields (base_fields this buffer startPosn) buffer startPosn)
               = buffer ! nat (startPosn + 8)
          \<and> Precision (quantization_fields (base_fields this buffer startPosn) buffer startPosn)
               = buffer ! nat (startPosn + 9)
          \<and> Length (quantization_fields (base_fields this buffer startPosn) buffer startPosn)
               = read_16 buffer (startPosn + 10))"
proof -
  let ?cut = "take (nat startPosn + 8) buffer"
  let ?L = "read_16 buffer (startPosn + 10)"
  have ib: "0 \<le> startPosn" "startPosn + 8 \<le> int (length ?cut)" "length ?cut < 2 ^ 64"
    using assms(1-3) by simp_all
  have nth_cut: "?cut ! nat (startPosn + i) = buffer ! nat (startPosn + i)" if "0 \<le> i" "i < 8" for i
    using that assms(1) by (simp add: nat_add_distrib)
  have cut0: "?cut ! nat startPosn = buffer ! nat startPosn"
    using nth_cut [of 0] by simp
  have r24: "read_24 ?cut (startPosn + 1) = read_24 buffer (startPosn + 1)"
    using nth_cut [of 1] nth_cut [of 2] nth_cut [of 3]
    by (simp add: read_24_def add.assoc)
  have bf: "base_fields this ?cut startPosn = base_fields this buffer startPosn"
    using cut0 r24 nth_cut [of 4] nth_cut [of 5] nth_cut [of 6] nth_cut [of 7]
    by (simp add: base_fields_def)
  have ty: "(64 \<le> buffer ! nat (startPosn + 4) \<and> buffer ! nat (startPosn + 4) \<le> 127) = False"
    using assms(5) by simp
  have no_ext: "JpegRtpHeader_Deserialise this (take (nat startPosn + 8) buffer) startPosn
              = JpegRtpHeader_Deserialise this buffer startPosn"
    if "read_24 buffer (startPosn + 1) \<noteq> 0 \<or> buffer ! nat (startPosn + 5) < 128"
    unfolding jpeg_paths [OF ib] jpeg_paths [OF assms(1-3)] Let_def bf
    using that assms(4,5) by (auto simp add: not_le)
  have plain: "JpegRtpHeader_Deserialise this buffer startPosn
              = Returned (base_fields this buffer startPosn)"
    if "read_24 buffer (startPosn + 1) \<noteq> 0 \<or> buffer ! nat (startPosn + 5) < 128"
    unfolding jpeg_paths [OF assms(1-3)] Let_def
    using that assms(4,5) by (auto simp add: not_le)
  have short: "JpegRtpHeader_Deserialise this buffer startPosn
                 = Thrown TruncatedQuantizationHeader (base_fields this buffer startPosn)"
    if "read_24 buffer (startPosn + 1) = 0 \<and> 128 \<le> buffer ! nat (startPosn + 5)"
      "int (length buffer) - startPosn - 8 < 4"
    unfolding jpeg_paths [OF assms(1-3)] Let_def
    using that assms(4) by (simp add: ty)
  have cutoff: "JpegRtpHeader_Deserialise this buffer startPosn
                 = Thrown TruncatedQuantizationTable
                     (quantization_fields (base_fields this buffer startPosn) buffer startPosn)"
    if "read_24 buffer (startPosn + 1) = 0 \<and> 128 \<le> buffer ! nat (startPosn + 5)"
      "4 \<le> int (length buffer) - startPosn - 8" "0 < ?L"
      "int (length buffer) - startPosn - 12 < uint ?L"
    unfolding jpeg_paths [OF assms(1-3)] Let_def
    using that assms(4) by (simp add: ty)
  have stored: "JpegRtpHeader_Deserialise this buffer startPosn
                 = Returned
                     ((quantization_fields (base_fields this buffer startPosn) buffer startPosn)
                        \<lparr>QTable := QTable this @
                           take (unat ?L) (drop (nat (startPosn + 12)) buffer)\<rparr>)"
    if "read_24 buffer (startPosn + 1) = 0 \<and> 128 \<le> buffer ! nat (startPosn + 5)"
      "4 \<le> int (length buffer) - startPosn - 8"
      "uint ?L \<le> int (length buffer) - startPosn - 12"
    unfolding jpeg_paths [OF assms(1-3)] Let_def
    using that assms(4) by (simp add: ty)
  have len: "length (take (unat ?L) (drop (nat (startPosn + 12)) buffer)) = unat ?L"
    if "uint ?L \<le> int (length buffer) - startPosn - 12"
  proof -
    have "int (unat ?L) \<le> int (length buffer) - startPosn - 12"
      using that by simp
    then have "unat ?L \<le> length buffer - nat (startPosn + 12)"
      using assms(1) by linarith
    then show ?thesis by simp
  qed
  show ?thesis
    using plain no_ext short cutoff stored len by simp
qed

text \<open>
  Offset 10 with \<open>Q = 255\<close> and offset 0 with \<open>Q = 127\<close>, both with trailing bytes:
  no extension. Offset 0 with \<open>Q = 255\<close>: with two trailing bytes the extension header
  is truncated; with a 2-byte table and one payload byte after it, the extension is
  returned with \<open>Length = 2\<close> and the two table bytes stored.
\<close>

theorem Deserialise_extension_iff_witness:
  "JpegRtpHeader_Deserialise fresh_JpegRtpHeader [0, 0, 0, 10, 2, 255, 80, 60, 0, 0, 0, 2, 16, 17] 0
     = Returned (fresh_JpegRtpHeader\<lparr>Offset := 10, Type := 2, Q := 255, Width := 80, Height := 60\<rparr>)
   \<and> JpegRtpHeader_Deserialise fresh_JpegRtpHeader [0, 0, 0, 0, 2, 127, 80, 60, 0, 0, 0, 2, 16, 17] 0
     = Returned (fresh_JpegRtpHeader\<lparr>Type := 2, Q := 127, Width := 80, Height := 60\<rparr>)
   \<and> JpegRtpHeader_Deserialise fresh_JpegRtpHeader [0, 0, 0, 0, 2, 255, 80, 60, 0, 0] 0
     = Thrown TruncatedQuantizationHeader
         (fresh_JpegRtpHeader\<lparr>Type := 2, Q := 255, Width := 80, Height := 60\<rparr>)
   \<and> JpegRtpHeader_Deserialise fresh_JpegRtpHeader
         [0, 0, 0, 0, 2, 255, 80, 60, 0, 0, 0, 2, 16, 17, 99] 0
     = Returned (fresh_JpegRtpHeader\<lparr>Type := 2, Q := 255, Width := 80, Height := 60,
                   Length := 2, QTable := [16, 17]\<rparr>)"
  using Deserialise_extension_iff
      [of 0 "[0, 0, 0, 10, 2, 255, 80, 60, 0, 0, 0, 2, 16, 17]" fresh_JpegRtpHeader]
    Deserialise_extension_iff
      [of 0 "[0, 0, 0, 0, 2, 127, 80, 60, 0, 0, 0, 2, 16, 17]" fresh_JpegRtpHeader]
    Deserialise_extension_iff
      [of 0 "[0, 0, 0, 0, 2, 255, 80, 60, 0, 0]" fresh_JpegRtpHeader]
    Deserialise_extension_iff
      [of 0 "[0, 0, 0, 0, 2, 255, 80, 60, 0, 0, 0, 2, 16, 17, 99]" fresh_JpegRtpHeader]
  by (simp add: read_24_def read_16_def word_le_def word_less_def base_fields_def
        quantization_fields_def fresh_JpegRtpHeader_def)


text \<open>
  C7 (as amended). With offset 0 and \<open>Q \<ge> 128\<close> and both checks passed: fewer than 4
  bytes after the base header raise an exception that equals the one for a truncated
  base header (the same \<^verbatim>\<open>runtime_error\<close> message, so not a distinct kind); a \<open>Length\<close>
  above 0 with fewer than \<open>Length\<close> bytes after the extension header raises
  \<open>TruncatedQuantizationTable\<close>, which differs from it; otherwise exactly \<open>Length\<close> bytes
  are appended to \<open>QTable\<close>.
\<close>

theorem Deserialise_quantization_table:
  assumes "0 \<le> startPosn" "startPosn + 8 \<le> int (length buffer)" "length buffer < 2 ^ 64"
    and "buffer ! nat startPosn = 0"
    and "\<not> (64 \<le> buffer ! nat (startPosn + 4) \<and> buffer ! nat (startPosn + 4) \<le> 127)"
    and "read_24 buffer (startPosn + 1) = 0" "128 \<le> buffer ! nat (startPosn + 5)"
  shows "JpegRtpHeader_Deserialise this buffer startPosn =
           (let b = base_fields this buffer startPosn;
                e = quantization_fields b buffer startPosn;
                remaining = int (length buffer) - startPosn - 8
            in if remaining < 4 then Thrown TruncatedQuantizationHeader b
               else if 0 < Length e \<and> remaining - 4 < uint (Length e)
                    then Thrown TruncatedQuantizationTable e
                    else Returned (e\<lparr>QTable := QTable this @
                           take (unat (Length e)) (drop (nat (startPosn + 12)) buffer)\<rparr>))
       \<and> (uint (read_16 buffer (startPosn + 10)) \<le> int (length buffer) - startPosn - 12 \<longrightarrow>
            length (take (unat (read_16 buffer (startPosn + 10)))
                     (drop (nat (startPosn + 12)) buffer))
              = unat (read_16 buffer (startPosn + 10)))
       \<and> TruncatedQuantizationHeader = JpegTruncatedBuffer
       \<and> TruncatedQuantizationTable \<noteq> JpegTruncatedBuffer"
proof -
  have eq: "int (length buffer) - startPosn - 8 - 4 = int (length buffer) - startPosn - 12"
    by simp
  have ty: "(64 \<le> buffer ! nat (startPosn + 4) \<and> buffer ! nat (startPosn + 4) \<le> 127) = False"
    using assms(5) by simp
  have main: "JpegRtpHeader_Deserialise this buffer startPosn =
           (let b = base_fields this buffer startPosn;
                e = quantization_fields b buffer startPosn;
                remaining = int (length buffer) - startPosn - 8
            in if remaining < 4 then Thrown TruncatedQuantizationHeader b
               else if 0 < Length e \<and> remaining - 4 < uint (Length e)
                    then Thrown TruncatedQuantizationTable e
                    else Returned (e\<lparr>QTable := QTable this @
                           take (unat (Length e)) (drop (nat (startPosn + 12)) buffer)\<rparr>))"
    unfolding jpeg_paths [OF assms(1-3)] Let_def eq
    using assms(4,6,7) by (simp add: ty)
  have len: "length (take (unat (read_16 buffer (startPosn + 10)))
                     (drop (nat (startPosn + 12)) buffer))
              = unat (read_16 buffer (startPosn + 10))"
    if "uint (read_16 buffer (startPosn + 10)) \<le> int (length buffer) - startPosn - 12"
  proof -
    have "int (unat (read_16 buffer (startPosn + 10))) \<le> int (length buffer) - startPosn - 12"
      using that by simp
    then have "unat (read_16 buffer (startPosn + 10)) \<le> length buffer - nat (startPosn + 12)"
      using assms(1) by linarith
    then show ?thesis by simp
  qed
  show ?thesis
    using main len by (simp add: error_kinds)
qed

text \<open>
  A packet with a 2-byte table and one trailing payload byte: the 2 bytes are copied;
  the same packet cut one byte short of the table: \<open>TruncatedQuantizationTable\<close>.
\<close>

theorem Deserialise_quantization_table_witness:
  "JpegRtpHeader_Deserialise fresh_JpegRtpHeader [0, 0, 0, 0, 2, 255, 80, 60, 0, 0, 0, 2, 16, 17, 99] 0
     = Returned (fresh_JpegRtpHeader\<lparr>Type := 2, Q := 255, Width := 80, Height := 60,
                   Length := 2, QTable := [16, 17]\<rparr>)
   \<and> JpegRtpHeader_Deserialise fresh_JpegRtpHeader [0, 0, 0, 0, 2, 255, 80, 60, 0, 0, 0, 2, 16] 0
     = Thrown TruncatedQuantizationTable
         (fresh_JpegRtpHeader\<lparr>Type := 2, Q := 255, Width := 80, Height := 60, Length := 2\<rparr>)"
  using Deserialise_quantization_table
      [of 0 "[0, 0, 0, 0, 2, 255, 80, 60, 0, 0, 0, 2, 16, 17, 99]" fresh_JpegRtpHeader]
    Deserialise_quantization_table
      [of 0 "[0, 0, 0, 0, 2, 255, 80, 60, 0, 0, 0, 2, 16]" fresh_JpegRtpHeader]
  by (simp add: read_24_def read_16_def word_le_def word_less_def base_fields_def
        quantization_fields_def fresh_JpegRtpHeader_def Let_def)

text \<open>
  C7 as stated fails: the claim has a distinct error kind for the truncated extension
  header, but that failure and the failure of a buffer shorter than 8 bytes throw the
  same exception.
\<close>

theorem TruncatedQuantizationHeader_not_distinct:
  "thrown (JpegRtpHeader_Deserialise fresh_JpegRtpHeader [0, 0, 0, 0, 2, 255, 80, 60, 0, 0] 0)
     = thrown (JpegRtpHeader_Deserialise fresh_JpegRtpHeader [0, 0, 0] 0)
   \<and> thrown (JpegRtpHeader_Deserialise fresh_JpegRtpHeader [0, 0, 0] 0)
     = Some (runtime_error
         ''The available buffer size was less than the minimum JPEG RTP header length.'')"
  by (simp add: JpegRtpHeader_Deserialise_def size_t_def jpeg_consts read_24_def Let_def
        fresh_JpegRtpHeader_def word_le_def)

text \<open>
  C9 (as amended). When \<open>RtpHeader.Deserialise\<close> throws, the object is unchanged. When
  \<open>JpegRtpHeader.Deserialise\<close> throws, \<open>QTable\<close> is unchanged; the whole object is
  unchanged when fewer than 8 bytes remain; on a later failure the six base fields
  hold what was read from the buffer.
\<close>

theorem Deserialise_failure_state:
  "(RtpHeader_Deserialise h buffer startPosn = Thrown e h' \<longrightarrow> h' = h)
   \<and> (JpegRtpHeader_Deserialise this buffer startPosn = Thrown e' this' \<longrightarrow>
        QTable this' = QTable this
      \<and> (size_t (int (length buffer) - startPosn) < 8 \<longrightarrow> this' = this)
      \<and> (0 \<le> startPosn \<and> startPosn + 8 \<le> int (length buffer) \<and> length buffer < 2 ^ 64 \<longrightarrow>
           TypeSpecifier this' = buffer ! nat startPosn
         \<and> Offset this' = read_24 buffer (startPosn + 1)
         \<and> Type this' = buffer ! nat (startPosn + 4)
         \<and> Q this' = buffer ! nat (startPosn + 5)
         \<and> Width this' = buffer ! nat (startPosn + 6)
         \<and> Height this' = buffer ! nat (startPosn + 7)))"
proof -
  have rtp: "h' = h" if "RtpHeader_Deserialise h buffer startPosn = Thrown e h'"
    using that by (simp add: RtpHeader_Deserialise_def Let_def split: if_splits)
  have qt: "QTable this' = QTable this"
    if "JpegRtpHeader_Deserialise this buffer startPosn = Thrown e' this'"
    using that unfolding Deserialise_unfold Let_def
    by (auto split: if_splits)
  have short: "this' = this"
    if "JpegRtpHeader_Deserialise this buffer startPosn = Thrown e' this'"
      "size_t (int (length buffer) - startPosn) < 8"
    using that by (simp add: jpeg_too_short)
  have base: "TypeSpecifier this' = buffer ! nat startPosn
         \<and> Offset this' = read_24 buffer (startPosn + 1)
         \<and> Type this' = buffer ! nat (startPosn + 4)
         \<and> Q this' = buffer ! nat (startPosn + 5)
         \<and> Width this' = buffer ! nat (startPosn + 6)
         \<and> Height this' = buffer ! nat (startPosn + 7)"
    if "JpegRtpHeader_Deserialise this buffer startPosn = Thrown e' this'"
      "0 \<le> startPosn" "startPosn + 8 \<le> int (length buffer)" "length buffer < 2 ^ 64"
    using that(1) unfolding jpeg_paths [OF that(2-4)] Let_def
    by (auto split: if_splits)
  show ?thesis
    using rtp qt short base by blast
qed

text \<open>
  An 8-byte restart-marker packet. Read as an RTP header it is shorter than 12 bytes:
  \<open>RtpHeader.Deserialise\<close> throws and the object is as before. Read as a JPEG payload
  header the parse fails on the type byte: \<open>QTable\<close> is as before, and \<open>Q\<close> already holds
  the byte of the packet.
\<close>

theorem Deserialise_failure_state_witness:
  "RtpHeader_Deserialise example_RtpHeader [0, 0, 7, 0, 64, 9, 0, 0] 0
     = Thrown (runtime_error
         ''The available buffer size was less than the minimum RTP header length.'')
         example_RtpHeader
   \<and> JpegRtpHeader_Deserialise fresh_JpegRtpHeader [0, 0, 7, 0, 64, 9, 0, 0] 0
     = Thrown UnsupportedRestartMarkers (fresh_JpegRtpHeader\<lparr>Offset := 0x700, Type := 64, Q := 9\<rparr>)
   \<and> QTable (fresh_JpegRtpHeader\<lparr>Offset := 0x700, Type := 64, Q := 9\<rparr>) = QTable fresh_JpegRtpHeader
   \<and> Q (fresh_JpegRtpHeader\<lparr>Offset := 0x700, Type := 64, Q := 9\<rparr>) = 9"
proof -
  have rtp: "\<exists>h'. RtpHeader_Deserialise example_RtpHeader [0, 0, 7, 0, 64, 9, 0, 0] 0
     = Thrown (runtime_error
         ''The available buffer size was less than the minimum RTP header length.'') h'"
    by (simp add: RtpHeader_Deserialise_def size_t_def RTP_MINIMUM_HEADER_LENGTH_def)
  then obtain h' where run_rtp:
    "RtpHeader_Deserialise example_RtpHeader [0, 0, 7, 0, 64, 9, 0, 0] 0
     = Thrown (runtime_error
         ''The available buffer size was less than the minimum RTP header length.'') h'"
    by blast
  have run: "JpegRtpHeader_Deserialise fresh_JpegRtpHeader [0, 0, 7, 0, 64, 9, 0, 0] 0
     = Thrown UnsupportedRestartMarkers (fresh_JpegRtpHeader\<lparr>Offset := 0x700, Type := 64, Q := 9\<rparr>)"
    by (simp add: JpegRtpHeader_Deserialise_def size_t_def jpeg_consts read_24_def Let_def
        fresh_JpegRtpHeader_def word_le_def UnsupportedRestartMarkers_def)
  have unchanged: "h' = example_RtpHeader"
    using run_rtp Deserialise_failure_state [of example_RtpHeader "[0, 0, 7, 0, 64, 9, 0, 0]" 0
        "runtime_error ''The available buffer size was less than the minimum RTP header length.''"
        h' fresh_JpegRtpHeader UnsupportedRestartMarkers
        "fresh_JpegRtpHeader\<lparr>Offset := 0x700, Type := 64, Q := 9\<rparr>"]
    by blast
  have jpeg: "QTable (fresh_JpegRtpHeader\<lparr>Offset := 0x700, Type := 64, Q := 9\<rparr>)
                = QTable fresh_JpegRtpHeader
            \<and> Q (fresh_JpegRtpHeader\<lparr>Offset := 0x700, Type := 64, Q := 9\<rparr>) = 9"
    using run Deserialise_failure_state [of example_RtpHeader "[0, 0, 7, 0, 64, 9, 0, 0]" 0
        "runtime_error ''The available buffer size was less than the minimum RTP header length.''"
        h' fresh_JpegRtpHeader UnsupportedRestartMarkers
        "fresh_JpegRtpHeader\<lparr>Offset := 0x700, Type := 64, Q := 9\<rparr>"]
    by simp
  show ?thesis
    using run_rtp unchanged run jpeg by simp
qed

text \<open>
  C9 as stated fails: on a packet with type-specific byte 1 the parse throws and leaves
  \<open>TypeSpecifier = 1\<close> in the object, which differs from the object before the call.
\<close>

theorem Deserialise_failure_changes_state:
  "JpegRtpHeader_Deserialise fresh_JpegRtpHeader [1, 0, 0, 0, 0, 0, 0, 0] 0
     = Thrown UnsupportedTypeSpecifier (fresh_JpegRtpHeader\<lparr>TypeSpecifier := 1\<rparr>)
   \<and> fresh_JpegRtpHeader\<lparr>TypeSpecifier := 1\<rparr> \<noteq> fresh_JpegRtpHeader"
  by (simp add: JpegRtpHeader_Deserialise_def size_t_def jpeg_consts read_24_def Let_def
        fresh_JpegRtpHeader_def UnsupportedTypeSpecifier_def)


section \<open>Properties of the Huffman code assignment\<close>


lemma huffman_assign_fields:
  "k (huffman_assign vt i st) = k st + 1"
  "code (huffman_assign vt i st) = code st + 1"
  "tables (huffman_assign vt i st) = assign_entry (tables st) (vt ! k st, i, code st)"
  by (simp_all add: huffman_assign_def tables_def Let_def)

lemma tables_code_update [simp]: "tables (st\<lparr>code := c\<rparr>) = tables st"
  by (simp add: tables_def)

lemma huffman_inner_run:
  "j \<le> nb \<Longrightarrow> k st + (nb - j) \<le> length vt \<Longrightarrow>
   \<exists>st'. huffman_inner vt i nb j st = Some st'
     \<and> tables st' = foldl assign_entry (tables st)
          (consecutive_codes i (code st) (take (nb - j) (drop (k st) vt)))
     \<and> k st' = k st + (nb - j) \<and> code st' = code st + int (nb - j)"
proof (induction "nb - j" arbitrary: j st)
  case 0
  then have "j = nb" by simp
  then show ?case by (subst huffman_inner.simps) simp
next
  case (Suc n)
  then have lt: "j < nb" and kl: "k st < length vt" by simp_all
  let ?st1 = "huffman_assign vt i st"
  have n: "n = nb - (j + 1)" using Suc(2) by simp
  have "j + 1 \<le> nb" using lt by simp
  moreover have "k ?st1 + (nb - (j + 1)) \<le> length vt"
    using Suc(4) lt by (simp add: huffman_assign_fields)
  ultimately obtain st' where run: "huffman_inner vt i nb (j + 1) ?st1 = Some st'"
    and tb: "tables st' = foldl assign_entry (tables ?st1)
          (consecutive_codes i (code ?st1) (take (nb - (j + 1)) (drop (k ?st1) vt)))"
    and kk: "k st' = k ?st1 + (nb - (j + 1))" and cc: "code st' = code ?st1 + int (nb - (j + 1))"
    using Suc(1) [OF n] by blast
  have step: "huffman_inner vt i nb j st = huffman_inner vt i nb (j + 1) ?st1"
    using lt kl by (subst huffman_inner.simps) simp
  have sp: "take (nb - j) (drop (k st) vt) = vt ! k st # take (nb - (j + 1)) (drop (k st + 1) vt)"
  proof -
    have "nb - j = Suc (nb - (j + 1))" using lt by simp
    moreover have "drop (k st) vt = vt ! k st # drop (k st + 1) vt"
      using kl by (simp add: Cons_nth_drop_Suc)
    ultimately show ?thesis by simp
  qed
  show ?case
    unfolding step sp using run tb kk cc lt
    by (simp add: huffman_assign_fields)
qed

lemma huffman_outer_run:
  "i \<le> 17 \<Longrightarrow> length bits = 17 \<Longrightarrow>
   k st + sum_list (map unat (drop i bits)) \<le> length vt \<Longrightarrow>
   \<exists>st'. huffman_outer bits vt i st = Some st'
     \<and> tables st' = foldl assign_entry (tables st)
          (canonical_codes i (code st) (map unat (drop i bits)) (drop (k st) vt))"
proof (induction "17 - i" arbitrary: i st)
  case 0
  then have "i = 17" by simp
  with 0 show ?case by (subst huffman_outer.simps) simp
next
  case (Suc n)
  then have le: "i \<le> 16" by simp
  have il: "i < length bits" using le Suc(4) by simp
  have dr: "drop i bits = bits ! i # drop (i + 1) bits"
    using il by (simp add: Cons_nth_drop_Suc)
  let ?nb = "unat (bits ! i)"
  have room: "k st + (?nb - 0) \<le> length vt"
    using Suc(5) unfolding dr by simp
  obtain st1 where r1: "huffman_inner vt i ?nb 0 st = Some st1"
    and t1: "tables st1 = foldl assign_entry (tables st)
          (consecutive_codes i (code st) (take ?nb (drop (k st) vt)))"
    and k1: "k st1 = k st + ?nb" and c1: "code st1 = code st + int ?nb"
    using huffman_inner_run [of 0 ?nb st vt i] room by auto
  let ?st2 = "st1\<lparr>code := code st1 * 2\<rparr>"
  have n: "n = 17 - (i + 1)" using Suc(2) by simp
  have "k ?st2 + sum_list (map unat (drop (i + 1) bits)) \<le> length vt"
    using Suc(5) k1 unfolding dr by simp
  then obtain st' where r2: "huffman_outer bits vt (i + 1) ?st2 = Some st'"
    and t2: "tables st' = foldl assign_entry (tables ?st2)
          (canonical_codes (i + 1) (code ?st2) (map unat (drop (i + 1) bits)) (drop (k ?st2) vt))"
    using Suc(1) [OF n _ Suc(4), of ?st2] le by auto
  have step: "huffman_outer bits vt i st = huffman_outer bits vt (i + 1) ?st2"
    using le il r1 by (subst huffman_outer.simps) simp
  show ?case
    unfolding step using r2 t2 t1 k1 c1
    by (subst dr) (simp add: ac_simps)
qed

lemma build_as_fold:
  assumes "length bits = 17" "sum_list (spec_counts bits) \<le> length vt"
  shows "ff_mjpeg_build_huffman_codes hs hc bits vt
           = Some (foldl assign_entry (hs(0 := 0), hc) (spec_codes bits vt))"
proof -
  let ?init = "\<lparr>huff_size = hs(0 := 0), huff_code = hc, k = 0, code = 0\<rparr>"
  have sc: "spec_counts bits = map unat (drop 1 bits)"
    using assms(1) by (simp add: spec_counts_def)
  have "k ?init + sum_list (map unat (drop 1 bits)) \<le> length vt"
    using assms(2) by (simp add: sc)
  then obtain st' where r: "huffman_outer bits vt 1 ?init = Some st'"
    and t: "tables st' = foldl assign_entry (tables ?init)
          (canonical_codes 1 (code ?init) (map unat (drop 1 bits)) (drop (k ?init) vt))"
    using huffman_outer_run [of 1 bits ?init vt] assms(1) by auto
  have "(huff_size st', huff_code st') = foldl assign_entry (hs(0 := 0), hc) (spec_codes bits vt)"
    using t by (simp add: tables_def spec_codes_def sc)
  then show ?thesis
    using r by (simp add: ff_mjpeg_build_huffman_codes_def)
qed


lemma fold_nonzero_symbol:
  "s \<noteq> 0 \<Longrightarrow>
   (fst (foldl assign_entry (hs, hc) es) s, snd (foldl assign_entry (hs, hc) es) s) =
     (case last_entry s es of
        None \<Rightarrow> (hs s, hc s)
      | Some (len, c) \<Rightarrow> (of_nat len, word_of_int c))"
proof (induction es rule: rev_induct)
  case Nil
  then show ?case by (simp add: last_entry_def)
next
  case (snoc e es)
  obtain s' len c where e: "e = (s', len, c)" by (cases e)
  obtain hs1 hc1 where f: "foldl assign_entry (hs, hc) es = (hs1, hc1)"
    by (cases "foldl assign_entry (hs, hc) es")
  show ?case
    using snoc f by (auto simp add: e last_entry_def)
qed

lemma fold_zero_kept:
  "hs 0 \<noteq> 0 \<Longrightarrow>
   fst (foldl assign_entry (hs, hc) es) 0 = hs 0 \<and> snd (foldl assign_entry (hs, hc) es) 0 = hc 0"
proof (induction es arbitrary: hs hc)
  case Nil
  then show ?case by simp
next
  case (Cons e es)
  obtain s' len c where e: "e = (s', len, c)" by (cases e)
  show ?case
  proof (cases "s' = 0")
    case True
    with Cons show ?thesis by (simp add: e)
  next
    case False
    with Cons.prems have "(hs(s' := of_nat len)) 0 \<noteq> 0" by simp
    then have "fst (foldl assign_entry (hs(s' := of_nat len), hc(s' := word_of_int c)) es) 0
                 = (hs(s' := of_nat len)) 0
             \<and> snd (foldl assign_entry (hs(s' := of_nat len), hc(s' := word_of_int c)) es) 0
                 = (hc(s' := word_of_int c)) 0"
      by (rule Cons.IH)
    moreover have "assign_entry (hs, hc) e = (hs(s' := of_nat len), hc(s' := word_of_int c))"
      using False by (simp add: e)
    ultimately show ?thesis using False by simp
  qed
qed

lemma fold_zero_symbol:
  "hs 0 = 0 \<Longrightarrow> \<forall>(s, len, c) \<in> set es. (of_nat len :: u8) \<noteq> 0 \<Longrightarrow>
   (fst (foldl assign_entry (hs, hc) es) 0, snd (foldl assign_entry (hs, hc) es) 0) =
     (case first_entry 0 es of
        None \<Rightarrow> (0, hc 0)
      | Some (len, c) \<Rightarrow> (of_nat len, word_of_int c))"
proof (induction es arbitrary: hs hc)
  case Nil
  then show ?case by (simp add: first_entry_def)
next
  case (Cons e es)
  obtain s' len c where e: "e = (s', len, c)" by (cases e)
  have rest: "\<forall>(s, len, c) \<in> set es. (of_nat len :: u8) \<noteq> 0" using Cons.prems(2) by simp
  show ?case
  proof (cases "s' = 0")
    case True
    have nz: "(of_nat len :: u8) \<noteq> 0" using Cons.prems(2) by (simp add: e)
    then have "(hs(0 := of_nat len)) 0 \<noteq> 0" by simp
    then have "fst (foldl assign_entry (hs(0 := of_nat len), hc(0 := word_of_int c)) es) 0
                 = (hs(0 := of_nat len)) 0
             \<and> snd (foldl assign_entry (hs(0 := of_nat len), hc(0 := word_of_int c)) es) 0
                 = (hc(0 := word_of_int c)) 0"
      by (rule fold_zero_kept)
    moreover have "assign_entry (hs, hc) e = (hs(0 := of_nat len), hc(0 := word_of_int c))"
      using True Cons.prems(1) by (simp add: e)
    moreover have "first_entry 0 (e # es) = Some (len, c)"
      using True by (simp add: e first_entry_def)
    ultimately show ?thesis by simp
  next
    case False
    from Cons.prems(1) False have "(hs(s' := of_nat len)) 0 = 0" by simp
    then have "(fst (foldl assign_entry (hs(s' := of_nat len), hc(s' := word_of_int c)) es) 0,
                snd (foldl assign_entry (hs(s' := of_nat len), hc(s' := word_of_int c)) es) 0) =
               (case first_entry 0 es of
                  None \<Rightarrow> (0, (hc(s' := word_of_int c)) 0)
                | Some (len, c) \<Rightarrow> (of_nat len, word_of_int c))"
      using rest by (rule Cons.IH)
    moreover have "assign_entry (hs, hc) e = (hs(s' := of_nat len), hc(s' := word_of_int c))"
      using False by (simp add: e)
    moreover have "first_entry 0 (e # es) = first_entry 0 es"
      using False by (simp add: e first_entry_def)
    ultimately show ?thesis using False by (simp split: option.splits)
  qed
qed

lemma consecutive_codes_len:
  "(s, len, c) \<in> set (consecutive_codes l c0 ss) \<Longrightarrow> len = l"
  by (induction ss arbitrary: c0) auto

lemma canonical_codes_len:
  "(s, len, c) \<in> set (canonical_codes l c0 counts vals) \<Longrightarrow> l \<le> len \<and> len < l + length counts"
proof (induction counts arbitrary: l c0 vals)
  case Nil
  then show ?case by simp
next
  case (Cons nb counts)
  from Cons.prems consider
    "(s, len, c) \<in> set (consecutive_codes l c0 (take nb vals))"
    | "(s, len, c) \<in> set (canonical_codes (l + 1) ((c0 + int nb) * 2) counts (drop nb vals))"
    by auto
  then show ?case
  proof cases
    case 1
    then show ?thesis using consecutive_codes_len by fastforce
  next
    case 2
    from Cons.IH [OF this] show ?thesis by simp
  qed
qed

lemma spec_codes_len_nonzero:
  "\<forall>(s, len, c) \<in> set (spec_codes bits vt). (of_nat len :: u8) \<noteq> 0"
proof -
  have "(of_nat len :: u8) \<noteq> 0" if "(s, len, c) \<in> set (spec_codes bits vt)" for s len c
  proof -
    have "length (spec_counts bits) \<le> 16" by (simp add: spec_counts_def)
    with canonical_codes_len [OF that [unfolded spec_codes_def]]
    have "1 \<le> len" "len < 256" by simp_all
    then have "unat (of_nat len :: u8) = len" by (simp add: unat_of_nat)
    with \<open>1 \<le> len\<close> show ?thesis by auto
  qed
  then show ?thesis by auto
qed

text \<open>
  C2. For a 17-entry bits table and a value table that holds the symbols it counts, the
  function returns, and its arrays follow the canonical assignment of the spec
  (\<open>spec_codes\<close>: for the lengths 1 to 16, \<open>bits_table[length]\<close> symbols in value-table order
  with consecutive codes, the running code doubled between lengths): symbol 0 has the
  length and code of its first occurrence (its length is 0 and its code untouched when
  it does not occur), every other symbol those of its last occurrence (untouched when
  it does not occur). A code is stored in a \<^verbatim>\<open>uint16_t\<close>, that is, modulo \<open>2\<^sup>1\<^sup>6\<close>.
\<close>

theorem build_huffman_codes_canonical:
  assumes "length bits_table = 17" "sum_list (spec_counts bits_table) \<le> length val_table"
  shows "case ff_mjpeg_build_huffman_codes hs hc bits_table val_table of
           None \<Rightarrow> False
         | Some (hs', hc') \<Rightarrow>
             (if s = 0 then
                (case first_entry 0 (spec_codes bits_table val_table) of
                   None \<Rightarrow> hs' 0 = 0 \<and> hc' 0 = hc 0
                 | Some (len, c) \<Rightarrow> hs' 0 = of_nat len \<and> hc' 0 = word_of_int c)
              else
                (case last_entry s (spec_codes bits_table val_table) of
                   None \<Rightarrow> hs' s = hs s \<and> hc' s = hc s
                 | Some (len, c) \<Rightarrow> hs' s = of_nat len \<and> hc' s = word_of_int c))"
proof -
  let ?es = "spec_codes bits_table val_table"
  obtain hs' hc' where f: "foldl assign_entry (hs(0 := 0), hc) ?es = (hs', hc')"
    by (cases "foldl assign_entry (hs(0 := 0), hc) ?es")
  have r: "ff_mjpeg_build_huffman_codes hs hc bits_table val_table = Some (hs', hc')"
    using build_as_fold [OF assms, of hs hc] f by simp
  have z: "case first_entry 0 ?es of
             None \<Rightarrow> hs' 0 = 0 \<and> hc' 0 = hc 0
           | Some (len, c) \<Rightarrow> hs' 0 = of_nat len \<and> hc' 0 = word_of_int c"
    using fold_zero_symbol [of "hs(0 := 0)" ?es hc] spec_codes_len_nonzero [of bits_table val_table] f
    by (auto split: option.splits)
  have nz: "case last_entry s ?es of
              None \<Rightarrow> hs' s = hs s \<and> hc' s = hc s
            | Some (len, c) \<Rightarrow> hs' s = of_nat len \<and> hc' s = word_of_int c" if "s \<noteq> 0"
    using fold_nonzero_symbol [OF that, of "hs(0 := 0)" hc ?es] f that
    by (auto split: option.splits)
  show ?thesis
    using r z nz by simp
qed


lemma example_spec_codes:
  "spec_codes example_bits_table example_val_table = [(0, 2, 0), (0, 2, 1), (5, 3, 4)]"
  by (simp add: spec_codes_def spec_counts_def example_bits_table_def example_val_table_def)

text \<open>
  Value table \<open>[0, 0, 5]\<close> with two codes of length 2 and one of length 3: symbol 0
  keeps length 2 and code 0 of its first occurrence, symbol 5 gets length 3 and code 4.
\<close>

theorem build_huffman_codes_canonical_witness:
  "(case ff_mjpeg_build_huffman_codes (\<lambda>s. 9) (\<lambda>s. 9) example_bits_table example_val_table of
      None \<Rightarrow> False
    | Some (hs', hc') \<Rightarrow> hs' 0 = 2 \<and> hc' 0 = 0)
   \<and> (case ff_mjpeg_build_huffman_codes (\<lambda>s. 9) (\<lambda>s. 9) example_bits_table example_val_table of
      None \<Rightarrow> False
    | Some (hs', hc') \<Rightarrow> hs' 5 = 3 \<and> hc' 5 = 4)"
proof -
  have h1: "length example_bits_table = 17" by (simp add: example_bits_table_def)
  have h2: "sum_list (spec_counts example_bits_table) \<le> length example_val_table"
    by (simp add: spec_counts_def example_bits_table_def example_val_table_def)
  show ?thesis
    using build_huffman_codes_canonical [OF h1 h2, where hs = "\<lambda>s. 9" and hc = "\<lambda>s. 9" and s = 0]
      build_huffman_codes_canonical [OF h1 h2, where hs = "\<lambda>s. 9" and hc = "\<lambda>s. 9" and s = 5]
    by (simp add: example_spec_codes first_entry_def last_entry_def split: option.splits prod.splits)
qed

lemma agree_assign:
  "agree st st' \<Longrightarrow> agree (huffman_assign vt i st) (huffman_assign_always vt i st')"
  by (simp add: agree_def huffman_assign_def huffman_assign_always_def Let_def)

lemma agree_inner:
  "agree st st' \<Longrightarrow>
   rel_option agree (huffman_inner vt i nb j st) (huffman_inner_always vt i nb j st')"
proof (induction vt i nb j st arbitrary: st' rule: huffman_inner.induct)
  case (1 vt i nb j st)
  have kk: "k st' = k st" using 1(2) by (simp add: agree_def)
  show ?case
  proof (cases "j < nb \<and> k st < length vt")
    case True
    have "rel_option agree (huffman_inner vt i nb (j + 1) (huffman_assign vt i st))
            (huffman_inner_always vt i nb (j + 1) (huffman_assign_always vt i st'))"
      using True 1(2) by (intro 1(1) agree_assign) simp_all
    then show ?thesis
      using True kk
      by (subst huffman_inner.simps, subst huffman_inner_always.simps) simp
  next
    case False
    then show ?thesis
      using kk 1(2)
      by (subst huffman_inner.simps, subst huffman_inner_always.simps) auto
  qed
qed

lemma agree_outer:
  "agree st st' \<Longrightarrow>
   rel_option agree (huffman_outer bits vt i st) (huffman_outer_always bits vt i st')"
proof (induction bits vt i st arbitrary: st' rule: huffman_outer.induct)
  case (1 bits vt i st)
  show ?case
  proof (cases "i \<le> 16 \<and> i < length bits")
    case True
    let ?nb = "unat (bits ! i)"
    from agree_inner [OF 1(2), of vt i ?nb 0]
    show ?thesis
    proof (cases rule: option.rel_cases)
      case None
      then show ?thesis
        using True by (subst huffman_outer.simps, subst huffman_outer_always.simps) simp
    next
      case (Some s1 s1')
      have "agree (s1\<lparr>code := code s1 * 2\<rparr>) (s1'\<lparr>code := code s1' * 2\<rparr>)"
        using Some(3) by (simp add: agree_def)
      then have "rel_option agree (huffman_outer bits vt (i + 1) (s1\<lparr>code := code s1 * 2\<rparr>))
            (huffman_outer_always bits vt (i + 1) (s1'\<lparr>code := code s1' * 2\<rparr>))"
        using True Some(1) by (intro 1(1)) simp_all
      then show ?thesis
        using True Some(1,2)
        by (subst huffman_outer.simps, subst huffman_outer_always.simps) simp
    qed
  next
    case False
    then show ?thesis
      using 1(2)
      by (subst huffman_outer.simps, subst huffman_outer_always.simps) auto
  qed
qed

text \<open>
  C10. The function and its copy without the guard of line 293 (every occurrence
  assigned) both return, end with the same counters \<^verbatim>\<open>k\<close> and \<^verbatim>\<open>code\<close>, and give every
  symbol other than 0 the same length and code.
\<close>

theorem skipped_zero_consumes_code_slot:
  assumes "length bits_table = 17" "sum_list (spec_counts bits_table) \<le> length val_table"
  shows "(case (huffman_outer bits_table val_table 1
                  \<lparr>huff_size = hs(0 := 0), huff_code = hc, k = 0, code = 0\<rparr>,
                huffman_outer_always bits_table val_table 1
                  \<lparr>huff_size = hs(0 := 0), huff_code = hc, k = 0, code = 0\<rparr>) of
            (Some st, Some st') \<Rightarrow> k st = k st' \<and> code st = code st'
          | _ \<Rightarrow> False)
       \<and> (case (ff_mjpeg_build_huffman_codes hs hc bits_table val_table,
                ff_mjpeg_build_huffman_codes_always hs hc bits_table val_table) of
            (Some (hs1, hc1), Some (hs2, hc2)) \<Rightarrow>
               (if s = 0 then True else hs1 s = hs2 s \<and> hc1 s = hc2 s)
          | _ \<Rightarrow> False)"
proof -
  let ?init = "\<lparr>huff_size = hs(0 := 0), huff_code = hc, k = 0, code = 0\<rparr>"
  have "ff_mjpeg_build_huffman_codes hs hc bits_table val_table \<noteq> None"
    using build_as_fold [OF assms, of hs hc] by simp
  then obtain st where r: "huffman_outer bits_table val_table 1 ?init = Some st"
    by (auto simp add: ff_mjpeg_build_huffman_codes_def)
  have "agree ?init ?init" by (simp add: agree_def)
  from agree_outer [OF this, of bits_table val_table 1] r
  obtain st' where r': "huffman_outer_always bits_table val_table 1 ?init = Some st'"
    and ag: "agree st st'"
    by (auto elim: option.rel_cases)
  show ?thesis
    using r r' ag
    by (simp add: ff_mjpeg_build_huffman_codes_def ff_mjpeg_build_huffman_codes_always_def agree_def)
qed


text \<open>
  Value table \<open>[0, 0, 5]\<close>: the second 0 is skipped, and symbol 5 gets length 3 and
  code 4 with and without the guard.
\<close>

theorem skipped_zero_consumes_code_slot_witness:
  "(case (ff_mjpeg_build_huffman_codes (\<lambda>s. 9) (\<lambda>s. 9) example_bits_table example_val_table,
          ff_mjpeg_build_huffman_codes_always (\<lambda>s. 9) (\<lambda>s. 9) example_bits_table
            example_val_table) of
      (Some (hs1, hc1), Some (hs2, hc2)) \<Rightarrow>
         hs1 5 = 3 \<and> hc1 5 = 4 \<and> hs2 5 = 3 \<and> hc2 5 = 4
    | _ \<Rightarrow> False)"
proof -
  have h1: "length example_bits_table = 17" by (simp add: example_bits_table_def)
  have h2: "sum_list (spec_counts example_bits_table) \<le> length example_val_table"
    by (simp add: spec_counts_def example_bits_table_def example_val_table_def)
  show ?thesis
    using skipped_zero_consumes_code_slot [OF h1 h2, where hs = "\<lambda>s. 9" and hc = "\<lambda>s. 9" and s = 5]
      build_as_fold [OF h1 h2, of "\<lambda>s. 9" "\<lambda>s. 9"]
    by (auto simp add: example_spec_codes split: option.splits prod.splits)
qed


section \<open>Properties of the JFIF header builder\<close>


lemma put_byte_uint [simp]: "bytestream2_put_byte p (uint (b :: u8)) = p @ [b]"
  by (simp add: bytestream2_put_byte_def)

lemma huffman_table_bits_run:
  "i \<le> 17 \<Longrightarrow> length bits = 17 \<Longrightarrow>
   huffman_table_bits p bits i n = (p @ drop i bits, n + sum_list (map uint (drop i bits)))"
proof (induction "17 - i" arbitrary: i p n)
  case 0
  then show ?case by (subst huffman_table_bits.simps) simp
next
  case (Suc m)
  then have le: "i \<le> 16" by simp
  then have dr: "drop i bits = bits ! i # drop (i + 1) bits"
    using Suc(4) by (simp add: Cons_nth_drop_Suc)
  have m: "m = 17 - (i + 1)" using Suc(2) by simp
  have "huffman_table_bits p bits i n =
        huffman_table_bits (p @ [bits ! i]) bits (i + 1) (n + uint (bits ! i))"
    using le by (subst huffman_table_bits.simps) (simp add: Let_def)
  also have "\<dots> = ((p @ [bits ! i]) @ drop (i + 1) bits,
                    (n + uint (bits ! i)) + sum_list (map uint (drop (i + 1) bits)))"
    using le Suc(4) by (intro Suc(1) [OF m]) simp_all
  finally show ?case by (subst (1 2) dr) simp
qed

lemma huffman_table_values_run:
  "i \<le> m \<Longrightarrow> m \<le> length vt \<Longrightarrow>
   huffman_table_values p vt i (int m) = p @ drop i (take m vt)"
proof (induction "m - i" arbitrary: i p)
  case 0
  then show ?case by (subst huffman_table_values.simps) simp
next
  case (Suc d)
  then have lt: "i < m" by simp
  have d: "d = m - (i + 1)" using Suc(2) by simp
  have dr: "drop i (take m vt) = vt ! i # drop (i + 1) (take m vt)"
    using lt Suc(4) by (simp add: Cons_nth_drop_Suc [symmetric])
  have "huffman_table_values p vt i (int m) = huffman_table_values (p @ [vt ! i]) vt (i + 1) (int m)"
    using lt by (subst huffman_table_values.simps) simp
  also have "\<dots> = (p @ [vt ! i]) @ drop (i + 1) (take m vt)"
    using lt Suc(4) by (intro Suc(1) [OF d]) simp_all
  finally show ?case by (subst dr) simp
qed

lemma sum_list_uint_unat: "sum_list (map uint (bs :: u8 list)) = int (sum_list (map unat bs))"
  by (induction bs) simp_all

lemma drop_one_tl: "drop (Suc 0) xs = tl xs"
  by (simp add: drop_Suc)

lemma jpeg_create_huffman_table_run:
  assumes "length bits = 17" "sum_list (map unat (tl bits)) \<le> length vt"
  shows "jpeg_create_huffman_table p c t bits vt =
           (p @ word_of_int (push_bit 4 c OR t) # tl bits
              @ take (sum_list (map unat (tl bits))) vt,
            int (sum_list (map unat (tl bits))) + 17)"
  using assms
  by (simp add: jpeg_create_huffman_table_def bytestream2_put_byte_def Let_def
        huffman_table_bits_run sum_list_uint_unat huffman_table_values_run drop_one_tl)

lemma put_qtables_step:
  "i < nb \<Longrightarrow> put_qtables p qtable nb i =
     put_qtables (p @ word_of_int i # take 64 (drop (nat (64 * i)) qtable)) qtable nb (i + 1)"
  by (subst put_qtables.simps)
    (simp add: Let_def bytestream2_put_byte_def bytestream2_put_buffer_def)

lemma put_qtables_done: "\<not> i < nb \<Longrightarrow> put_qtables p qtable nb i = p"
  by (subst put_qtables.simps) simp

lemma put_qtables_append:
  "put_qtables p qtable nb i = p @ put_qtables [] qtable nb i"
proof (induction "nat (nb - i)" arbitrary: p i)
  case 0
  then have "\<not> i < nb" by simp
  then show ?case by (simp add: put_qtables_done)
next
  case (Suc d)
  then have lt: "i < nb" by simp
  have d: "d = nat (nb - (i + 1))" using Suc(2) by simp
  let ?blk = "word_of_int i # take 64 (drop (nat (64 * i)) qtable)"
  have "put_qtables p qtable nb i = (p @ ?blk) @ put_qtables [] qtable nb (i + 1)"
    using Suc(1) [OF d, of "p @ ?blk"] by (simp add: put_qtables_step [OF lt])
  moreover have "put_qtables [] qtable nb i = ?blk @ put_qtables [] qtable nb (i + 1)"
    using Suc(1) [OF d, of ?blk] by (simp add: put_qtables_step [OF lt])
  ultimately show ?case by simp
qed

lemma put_qtables_length:
  "0 \<le> i \<Longrightarrow> 64 * nat nb \<le> length qtable \<Longrightarrow>
   length (put_qtables [] qtable nb i) = 65 * nat (nb - i)"
proof (induction "nat (nb - i)" arbitrary: i)
  case 0
  then have "\<not> i < nb" by simp
  then show ?case using 0 by (simp add: put_qtables_done)
next
  case (Suc d)
  then have lt: "i < nb" by simp
  have d: "d = nat (nb - (i + 1))" using Suc(2) by simp
  let ?blk = "word_of_int i # take 64 (drop (nat (64 * i)) qtable)"
  have "64 * nat i + 64 \<le> 64 * nat nb" using lt Suc(3) by simp
  then have "64 \<le> length qtable - nat (64 * i)"
    using Suc(3,4) by (simp add: nat_mult_distrib)
  then have blk: "length ?blk = 65" by simp
  have "put_qtables [] qtable nb i = ?blk @ put_qtables [] qtable nb (i + 1)"
    using put_qtables_append [of ?blk qtable nb "i + 1"] by (simp add: put_qtables_step [OF lt])
  moreover have "length (put_qtables [] qtable nb (i + 1)) = 65 * nat (nb - (i + 1))"
    using Suc(3,4) by (intro Suc(1) [OF d]) simp_all
  ultimately have "length (put_qtables [] qtable nb i) = 65 + 65 * nat (nb - (i + 1))"
    using blk by simp
  also have "\<dots> = 65 * nat (nb - i)"
    using lt Suc(2) d by simp
  finally show ?case .
qed

lemma table_lengths:
  "length avpriv_mjpeg_bits_dc_luminance = 17"
  "length avpriv_mjpeg_bits_dc_chrominance = 17"
  "length avpriv_mjpeg_bits_ac_luminance = 17"
  "length avpriv_mjpeg_bits_ac_chrominance = 17"
  "length avpriv_mjpeg_val_dc = 12"
  "length avpriv_mjpeg_val_ac_luminance = 162"
  "length avpriv_mjpeg_val_ac_chrominance = 162"
  by (simp_all add: avpriv_mjpeg_bits_dc_luminance_def avpriv_mjpeg_bits_dc_chrominance_def
        avpriv_mjpeg_bits_ac_luminance_def avpriv_mjpeg_bits_ac_chrominance_def
        avpriv_mjpeg_val_dc_def avpriv_mjpeg_val_ac_luminance_def avpriv_mjpeg_val_ac_chrominance_def)

lemma table_counts:
  "sum_list (map unat (tl avpriv_mjpeg_bits_dc_luminance)) = 12"
  "sum_list (map unat (tl avpriv_mjpeg_bits_dc_chrominance)) = 12"
  "sum_list (map unat (tl avpriv_mjpeg_bits_ac_luminance)) = 162"
  "sum_list (map unat (tl avpriv_mjpeg_bits_ac_chrominance)) = 162"
  by (simp_all add: avpriv_mjpeg_bits_dc_luminance_def avpriv_mjpeg_bits_dc_chrominance_def
        avpriv_mjpeg_bits_ac_luminance_def avpriv_mjpeg_bits_ac_chrominance_def)


lemma tables_run:
  "jpeg_create_huffman_table p 0 0 avpriv_mjpeg_bits_dc_luminance avpriv_mjpeg_val_dc =
     (p @ dht_table_bytes 0 0 avpriv_mjpeg_bits_dc_luminance avpriv_mjpeg_val_dc, 29)"
  "jpeg_create_huffman_table p 0 1 avpriv_mjpeg_bits_dc_chrominance avpriv_mjpeg_val_dc =
     (p @ dht_table_bytes 0 1 avpriv_mjpeg_bits_dc_chrominance avpriv_mjpeg_val_dc, 29)"
  "jpeg_create_huffman_table p 1 0 avpriv_mjpeg_bits_ac_luminance avpriv_mjpeg_val_ac_luminance =
     (p @ dht_table_bytes 1 0 avpriv_mjpeg_bits_ac_luminance avpriv_mjpeg_val_ac_luminance, 179)"
  "jpeg_create_huffman_table p 1 1 avpriv_mjpeg_bits_ac_chrominance avpriv_mjpeg_val_ac_chrominance =
     (p @ dht_table_bytes 1 1 avpriv_mjpeg_bits_ac_chrominance avpriv_mjpeg_val_ac_chrominance, 179)"
  by (simp_all add: jpeg_create_huffman_table_run table_lengths table_counts dht_table_bytes_def)

lemma dht_table_bytes_length:
  "length bits = 17 \<Longrightarrow> sum_list (map unat (tl bits)) \<le> length vt \<Longrightarrow>
   length (dht_table_bytes c t bits vt) = 17 + sum_list (map unat (tl bits))"
  by (simp add: dht_table_bytes_def)

lemma dht_tables_length: "length dht_tables = 416"
  by (simp add: dht_tables_def dht_table_bytes_length table_lengths table_counts)

lemma AV_WB16_append:
  "AV_WB16 (P @ a # b # T) (length P) v = P @ word_of_int (v div 256) # word_of_int v # T"
  by (simp add: AV_WB16_def list_update_append)

lemma byte_513: "(513 :: u8) = 1"
  by simp

lemma header_phases:
  "fst (jpeg_create_header buf_size type w h qtable nb dri) =
     AV_WB16 ((soi_app0_segment @ dri_segment dri @ dqt_segment qtable nb @ [0xFF, 0xC4])
                @ 0 # 0 # dht_tables)
       (length (soi_app0_segment @ dri_segment dri @ dqt_segment qtable nb @ [0xFF, 0xC4])) 418
     @ sof0_segment type w h nb @ sos_segment"
  by (simp add: jpeg_create_header_def Let_def tables_run put_qtables_append [of "_ # _"] byte_513
        bytestream2_init_writer_def jpeg_put_marker_def bytestream2_put_byte_def
        bytestream2_put_be16_def bytestream2_put_buffer_def c_string_def
        SOI_def APP0_def DRI_def DQT_def DHT_def SOF0_def SOS_def
        soi_app0_segment_def dri_segment_def dqt_segment_def dht_tables_def sof0_segment_def
        sos_segment_def)


lemma header_layout:
  "fst (jpeg_create_header buf_size type w h qtable nb dri) =
     soi_app0_segment @ dri_segment dri @ dqt_segment qtable nb
       @ [0xFF, 0xC4, 0x01, 0xA2] @ dht_tables @ sof0_segment type w h nb @ sos_segment"
  unfolding header_phases AV_WB16_append by simp

lemma header_returns_length:
  "snd (jpeg_create_header buf_size type w h qtable nb dri)
     = int (length (fst (jpeg_create_header buf_size type w h qtable nb dri)))"
  by (simp add: jpeg_create_header_def Let_def bytestream2_tell_p_def split_beta)

lemma segment_lengths:
  "length soi_app0_segment = 20"
  "length (dri_segment dri) = (if dri \<noteq> 0 then 6 else 0)"
  "length (sof0_segment type w h nb) = 19"
  "length sos_segment = 14"
  by (simp_all add: soi_app0_segment_def dri_segment_def sof0_segment_def sos_segment_def)

lemma dqt_segment_length:
  "64 * nat nb \<le> length qtable \<Longrightarrow> length (dqt_segment qtable nb) = 4 + 65 * nat nb"
  by (simp add: dqt_segment_def put_qtables_length)

lemma header_begins_soi_app0:
  "take 20 (fst (jpeg_create_header buf_size type w h qtable nb dri)) = soi_app0_segment"
  unfolding header_layout by (simp add: segment_lengths)

lemma sof0_at_offset:
  assumes "64 * nat nb \<le> length qtable"
  shows "take 19 (drop (sof0_offset nb dri)
           (fst (jpeg_create_header buf_size type w h qtable nb dri))) = sof0_segment type w h nb"
    and "length (fst (jpeg_create_header buf_size type w h qtable nb dri))
           = sof0_offset nb dri + 19 + 14"
proof -
  define pre where "pre = soi_app0_segment @ dri_segment dri @ dqt_segment qtable nb
       @ [0xFF, 0xC4, 0x01, 0xA2] @ dht_tables"
  have len: "length pre = sof0_offset nb dri"
    by (simp add: pre_def segment_lengths dqt_segment_length [OF assms] dht_tables_length
          sof0_offset_def)
  have out: "fst (jpeg_create_header buf_size type w h qtable nb dri)
               = pre @ sof0_segment type w h nb @ sos_segment"
    unfolding header_layout pre_def by simp
  show "take 19 (drop (sof0_offset nb dri)
           (fst (jpeg_create_header buf_size type w h qtable nb dri))) = sof0_segment type w h nb"
    unfolding out len [symmetric] by (simp add: segment_lengths)
  show "length (fst (jpeg_create_header buf_size type w h qtable nb dri))
           = sof0_offset nb dri + 19 + 14"
    unfolding out using len by (simp add: segment_lengths)
qed

lemma be16_value_put:
  "be16_value (word_of_int (x div 256)) (word_of_int x) = x mod 65536"
proof -
  have "x mod 65536 = 256 * ((x div 256) mod 256) + x mod 256"
    using zmod_zmult2_eq [of 256 x 256] by simp
  then show ?thesis
    by (simp add: be16_value_def uint_word_of_int)
qed

lemma uint_blocks_to_pixels:
  "uint (push_bit 3 (v :: u32)) mod 65536 = (uint v * 8) mod 65536"
proof -
  have "uint (push_bit 3 v) = (uint v * 8) mod 2 ^ 32"
    by (simp add: push_bit_eq_mult uint_word_ariths)
  moreover have "((uint v * 8) mod 2 ^ 32) mod 65536 = (uint v * 8) mod 65536"
    by (rule mod_mod_cancel) simp
  ultimately show ?thesis by simp
qed

lemma sof0_segment_fields:
  "take 5 (sof0_segment type w h nb) = [0xFF, 0xC0, 0x00, 0x11, 0x08]"
  "be16_value (sof0_segment type w h nb ! 5) (sof0_segment type w h nb ! 6) = (uint h * 8) mod 65536"
  "be16_value (sof0_segment type w h nb ! 7) (sof0_segment type w h nb ! 8) = (uint w * 8) mod 65536"
  "drop 9 (sof0_segment type w h nb) =
     [3, 1, (if type \<noteq> 0 then 0x22 else 0x21), 0,
      2, 0x11, (if nb = 2 then 1 else 0), 3, 0x11, (if nb = 2 then 1 else 0)]"
proof -
  have n: "sof0_segment type w h nb ! 5 = word_of_int (uint (push_bit 3 h) div 256)"
    "sof0_segment type w h nb ! 6 = word_of_int (uint (push_bit 3 h))"
    "sof0_segment type w h nb ! 7 = word_of_int (uint (push_bit 3 w) div 256)"
    "sof0_segment type w h nb ! 8 = word_of_int (uint (push_bit 3 w))"
    by (simp_all add: sof0_segment_def)
  show "be16_value (sof0_segment type w h nb ! 5) (sof0_segment type w h nb ! 6)
          = (uint h * 8) mod 65536"
    unfolding n be16_value_put by (rule uint_blocks_to_pixels)
  show "be16_value (sof0_segment type w h nb ! 7) (sof0_segment type w h nb ! 8)
          = (uint w * 8) mod 65536"
    unfolding n be16_value_put by (rule uint_blocks_to_pixels)
  show "take 5 (sof0_segment type w h nb) = [0xFF, 0xC0, 0x00, 0x11, 0x08]"
    by (simp add: sof0_segment_def)
  show "drop 9 (sof0_segment type w h nb) =
     [3, 1, (if type \<noteq> 0 then 0x22 else 0x21), 0,
      2, 0x11, (if nb = 2 then 1 else 0), 3, 0x11, (if nb = 2 then 1 else 0)]"
    by (simp add: sof0_segment_def)
qed


text \<open>
  C3. Block counts are the one-byte \<^verbatim>\<open>Width\<close> and \<^verbatim>\<open>Height\<close> of the RTP JPEG header
  (lines 144--145), passed on as \<^verbatim>\<open>uint32_t\<close>. For every such width and height, every
  type, restart interval and \<^verbatim>\<open>nb_qtable\<close> tables of 64 bytes, the header begins with
  \<open>0xFF 0xD8\<close>, and its SOF0 segment (at \<open>sof0_offset\<close>) has length field 17, precision 8,
  height \<open>8 * height_blocks\<close> and width \<open>8 * width_blocks\<close>, 3 components, component 1
  with sampling \<open>0x22\<close> for a non-zero type and \<open>0x21\<close> for type 0 and table 0, components
  2 and 3 with sampling \<open>0x11\<close> and table 1 when \<^verbatim>\<open>nb_qtable\<close> is 2, else 0; the SOS
  segment (14 bytes) ends the header and the returned length is the header's length.
\<close>

theorem jpeg_create_header_sof0:
  fixes width_blocks height_blocks :: u8
  assumes "64 * nat nb_qtable \<le> length qtable"
  shows "let out = fst (jpeg_create_header buf_size type (ucast width_blocks)
                          (ucast height_blocks) qtable nb_qtable dri);
             sof0 = take 19 (drop (sof0_offset nb_qtable dri) out)
         in take 2 out = [0xFF, 0xD8]
          \<and> take 5 sof0 = [0xFF, 0xC0, 0x00, 0x11, 0x08]
          \<and> be16_value (sof0 ! 5) (sof0 ! 6) = uint height_blocks * 8
          \<and> be16_value (sof0 ! 7) (sof0 ! 8) = uint width_blocks * 8
          \<and> drop 9 sof0 =
               [3, 1, (if type \<noteq> 0 then 0x22 else 0x21), 0,
                2, 0x11, (if nb_qtable = 2 then 1 else 0),
                3, 0x11, (if nb_qtable = 2 then 1 else 0)]
          \<and> length out = sof0_offset nb_qtable dri + 19 + 14
          \<and> snd (jpeg_create_header buf_size type (ucast width_blocks) (ucast height_blocks)
                    qtable nb_qtable dri) = int (length out)"
proof -
  let ?w = "ucast width_blocks :: u32" and ?h = "ucast height_blocks :: u32"
  have soi: "take 2 (fst (jpeg_create_header buf_size type ?w ?h qtable nb_qtable dri))
               = [0xFF, 0xD8]"
  proof -
    have "take 2 (take 20 (fst (jpeg_create_header buf_size type ?w ?h qtable nb_qtable dri)))
            = [0xFF, 0xD8]"
      unfolding header_begins_soi_app0 by (simp add: soi_app0_segment_def)
    then show ?thesis by simp
  qed
  have small: "uint (ucast v :: u32) * 8 mod 65536 = uint v * 8" for v :: u8
  proof -
    have "uint v < 2 ^ 8" using uint_bounded [of v] by simp
    then have "uint v * 8 < 65536" by simp
    moreover have "uint (ucast v :: u32) = uint v" by (simp add: uint_up_ucast is_up)
    ultimately show ?thesis by simp
  qed
  show ?thesis
    unfolding Let_def sof0_at_offset [OF assms] header_returns_length
    using soi sof0_at_offset(2) [OF assms, where type = type and w = ?w and h = ?h]
    by (simp add: sof0_segment_fields small)
qed

text \<open>
  80 by 60 blocks, type 1, two tables: width 640 and height 480.
\<close>

theorem jpeg_create_header_sof0_witness:
  "(let out = fst (jpeg_create_header 1024 1 (ucast (80 :: u8)) (ucast (60 :: u8))
                     (replicate 128 16) 2 0);
        sof0 = take 19 (drop (sof0_offset 2 0) out)
    in take 2 out = [0xFF, 0xD8]
     \<and> take 5 sof0 = [0xFF, 0xC0, 0x00, 0x11, 0x08]
     \<and> be16_value (sof0 ! 5) (sof0 ! 6) = 480
     \<and> be16_value (sof0 ! 7) (sof0 ! 8) = 640
     \<and> drop 9 sof0 = [3, 1, 0x22, 0, 2, 0x11, 1, 3, 0x11, 1])"
proof -
  have h: "64 * nat 2 \<le> length (replicate 128 (16 :: u8))" by simp
  show ?thesis
    using jpeg_create_header_sof0 [OF h, where buf_size = 1024 and type = 1
        and width_blocks = 80 and height_blocks = 60 and dri = 0]
    by (simp add: Let_def sof0_offset_def del: nth_drop)
qed

text \<open>
  C8. For every input the header begins with SOI and the APP0 segment: marker
  \<open>0xFF 0xE0\<close>, length field 16, \<open>JFIF\<close> and a zero byte, the version bytes, units 0,
  densities 1 and 1, and a 0 by 0 thumbnail. The version bytes are \<open>0x02 0x01\<close> (from
  \<^verbatim>\<open>bytestream2_put_be16(&pbc, 0x0201)\<close>): major 2 and minor 1 in the order of the JFIF
  format, where version 1.2 is \<open>0x01 0x02\<close>.
\<close>

theorem jpeg_create_header_app0:
  "take 20 (fst (jpeg_create_header buf_size type w h qtable nb_qtable dri)) =
     [0xFF, 0xD8,
      0xFF, 0xE0, 0x00, 0x10, 0x4A, 0x46, 0x49, 0x46, 0x00,
      0x02, 0x01,
      0x00, 0x00, 0x01, 0x00, 0x01, 0x00, 0x00]
   \<and> fst (jpeg_create_header buf_size type w h qtable nb_qtable dri) ! 11 = 2
   \<and> fst (jpeg_create_header buf_size type w h qtable nb_qtable dri) ! 12 = 1"
proof -
  let ?out = "fst (jpeg_create_header buf_size type w h qtable nb_qtable dri)"
  have t: "take 20 ?out = soi_app0_segment" by (rule header_begins_soi_app0)
  have "?out ! 11 = take 20 ?out ! 11" "?out ! 12 = take 20 ?out ! 12" by simp_all
  then show ?thesis
    unfolding t by (simp add: soi_app0_segment_def)
qed


end
